theory Spec2Isabelle
  imports Complex_Main
begin

section \<open>Wire data\<close>

text \<open>
  Messages travel as JSON text. The relay and the endpoints work on the value that
  \<^verbatim>\<open>JSON.parse\<close> returns, so the model starts from that value. JavaScript numbers are
  modelled as exact reals (rounding of doubles is not modelled), with two more values for
  the infinities that \<^verbatim>\<open>JSON.parse\<close> returns for a number text beyond the range of a
  double (\<open>JInfinity True\<close> is the positive one); an object is the list of its own
  properties, read with \<open>map_of\<close>.
\<close>

datatype json =
    JNull
  | JBool bool
  | JNum real
  | JInfinity bool
  | JStr string
  | JArr "json list"
  | JObj "(string \<times> json) list"

text \<open>
  A property read \<^verbatim>\<open>data.k\<close>. On \<^verbatim>\<open>null\<close> the read throws a TypeError (the caller
  handles that case before reading); on every other parsed value a property that is
  not there reads as \<^verbatim>\<open>undefined\<close>, here \<open>None\<close>.
\<close>

fun field :: "json \<Rightarrow> string \<Rightarrow> json option" where
  "field (JObj kvs) k = map_of kvs k"
| "field _ k = None"

text \<open>What \<^verbatim>\<open>JSON.parse(message.toString())\<close> did with the inbound text.\<close>

datatype inbound = Unparsable | Parsed json

text \<open>
  What the receiver parses out of \<^verbatim>\<open>JSON.stringify\<close> of a parsed value: the value itself,
  but an infinity, at any depth, is written as \<^verbatim>\<open>null\<close>.
\<close>

fun stringified :: "json \<Rightarrow> json" where
  "stringified (JInfinity b) = JNull"
| "stringified (JArr xs) = JArr (map stringified xs)"
| "stringified (JObj kvs) = JObj (map (\<lambda>(k, v). (k, stringified v)) kvs)"
| "stringified j = j"

text \<open>
  \<^verbatim>\<open>JSON.stringify\<close> of an object literal leaves out a property whose value is
  \<^verbatim>\<open>undefined\<close>.
\<close>

definition opt_prop :: "string \<Rightarrow> json option \<Rightarrow> (string \<times> json) list" where
  "opt_prop k v = (case v of None \<Rightarrow> [] | Some j \<Rightarrow> [(k, stringified j)])"

text \<open>
  A template literal \<^verbatim>\<open>`${v}`\<close> converts \<open>v\<close> to a string. For \<^verbatim>\<open>undefined\<close> and for
  a primitive value that succeeds. For an object the conversion calls its \<^verbatim>\<open>toString\<close>:
  a parsed object that has a property of that name of its own (never a function) has none
  to call, and the conversion throws a TypeError; without one it inherits
  \<^verbatim>\<open>Object.prototype.toString\<close>. For an array \<^verbatim>\<open>Array.prototype.toString\<close> joins the
  string forms of its elements (a \<^verbatim>\<open>null\<close> element gives the empty string), and throws
  when one of them throws.
\<close>

fun has_string_form :: "json \<Rightarrow> bool" where
  "has_string_form (JObj kvs) = (map_of kvs ''toString'' = None)"
| "has_string_form (JArr xs) = list_all has_string_form xs"
| "has_string_form j = True"

definition template_ok :: "json option \<Rightarrow> bool" where
  "template_ok v = (case v of None \<Rightarrow> True | Some j \<Rightarrow> has_string_form j)"

section \<open>Relay server (server.js)\<close>

type_synonym conn = nat

datatype ready_state = CONNECTING | OPEN | CLOSING | CLOSED

datatype log_entry =
    LogBroadcastingVideoId "json option"
  | LogTotalClients nat
  | LogSentVideoId nat
  | LogSkippingClient
  | LogBroadcasted nat
  | LogBroadcastingAction "json option" "json option"
  | LogErrorParsing

text \<open>
  \<^verbatim>\<open>clients\<close> is a JavaScript \<^verbatim>\<open>Set\<close>: it iterates in insertion order and holds no
  value twice. \<^verbatim>\<open>clients.add\<close> and \<^verbatim>\<open>clients.delete\<close>:
\<close>

definition set_add :: "conn \<Rightarrow> conn list \<Rightarrow> conn list" where
  "set_add c cs = (if c \<in> set cs then cs else cs @ [c])"

definition set_delete :: "conn \<Rightarrow> conn list \<Rightarrow> conn list" where
  "set_delete c cs = removeAll c cs"

text \<open>The outcome of one run of a handler: what was sent to whom, and what was logged.\<close>

record outcome =
  sends :: "(conn \<times> json) list"
  logs :: "log_entry list"

text \<open>The two messages the relay builds.\<close>

definition load_video_msg :: "json \<Rightarrow> real \<Rightarrow> json" where
  "load_video_msg data t =
     JObj ([(''type'', JStr ''LOAD_VIDEO'')] @ opt_prop ''videoId'' (field data ''videoId'')
           @ [(''timestamp'', JNum t)])"

definition action_msg :: "json \<Rightarrow> real \<Rightarrow> json" where
  "action_msg data t =
     JObj (opt_prop ''action'' (field data ''action'') @ opt_prop ''time'' (field data ''time'')
           @ [(''timestamp'', JNum t)])"

text \<open>
  The \<^verbatim>\<open>clients.forEach\<close> of the \<^verbatim>\<open>LOAD_VIDEO\<close> branch. \<open>clock k\<close> is what the \<open>k\<close>-th call
  of \<^verbatim>\<open>Date.now()\<close> inside this handler run returns; \<open>n\<close> is \<^verbatim>\<open>broadcastCount\<close>, which
  is also the number of clock reads made so far.
\<close>

fun load_loop ::
  "(conn \<Rightarrow> ready_state) \<Rightarrow> conn \<Rightarrow> json \<Rightarrow> (nat \<Rightarrow> real) \<Rightarrow> conn list \<Rightarrow> nat \<Rightarrow> outcome \<Rightarrow> nat \<times> outcome"
where
  "load_loop rs ws data clock [] n out = (n, out)"
| "load_loop rs ws data clock (client # cs) n out =
     (if client \<noteq> ws \<and> rs client = OPEN
      then load_loop rs ws data clock cs (Suc n)
             (out\<lparr>sends := sends out @ [(client, load_video_msg data (clock n))],
                  logs := logs out @ [LogSentVideoId (Suc n)]\<rparr>)
      else load_loop rs ws data clock cs n
             (out\<lparr>logs := logs out @ [LogSkippingClient]\<rparr>))"

text \<open>The \<^verbatim>\<open>clients.forEach\<close> of the playback branch; \<open>n\<close> counts the clock reads.\<close>

fun action_loop ::
  "(conn \<Rightarrow> ready_state) \<Rightarrow> conn \<Rightarrow> json \<Rightarrow> (nat \<Rightarrow> real) \<Rightarrow> conn list \<Rightarrow> nat \<Rightarrow> outcome \<Rightarrow> outcome"
where
  "action_loop rs ws data clock [] n out = out"
| "action_loop rs ws data clock (client # cs) n out =
     (if client \<noteq> ws \<and> rs client = OPEN
      then action_loop rs ws data clock cs (Suc n)
             (out\<lparr>sends := sends out @ [(client, action_msg data (clock n))]\<rparr>)
      else action_loop rs ws data clock cs n out)"

definition is_load_video :: "json \<Rightarrow> bool" where
  "is_load_video data \<longleftrightarrow> field data ''type'' = Some (JStr ''LOAD_VIDEO'')"

text \<open>
  \<^verbatim>\<open>data.action && (data.action === "PLAY" || ...)\<close>: each of the three strings is
  truthy, so the test is the disjunction of the three strict equalities.
\<close>

definition is_playback_action :: "json \<Rightarrow> bool" where
  "is_playback_action data \<longleftrightarrow>
     field data ''action'' = Some (JStr ''PLAY'') \<or>
     field data ''action'' = Some (JStr ''PAUSE'') \<or>
     field data ''action'' = Some (JStr ''SEEK'')"

text \<open>
  \<^verbatim>\<open>ws.on("message", ...)\<close> for the connection \<open>ws\<close>, with the registry \<open>clients\<close> and
  the sockets' \<^verbatim>\<open>readyState\<close> as they are when the message is processed. A text that does not
  parse, and the parsed value \<^verbatim>\<open>null\<close> (whose \<^verbatim>\<open>data.type\<close> throws), end in the
  \<^verbatim>\<open>catch\<close>, which logs. So does a recognized message whose first log line cannot be
  built: each branch starts, before its loop, with a \<^verbatim>\<open>console.log\<close> of a template
  literal that holds \<^verbatim>\<open>data.videoId\<close>, respectively \<^verbatim>\<open>data.action\<close> (one of three
  strings) and \<^verbatim>\<open>data.time\<close>; when that value has no string form the literal throws
  before anything is logged or sent. \<^verbatim>\<open>client.send\<close> on an OPEN socket is taken to return
  normally. The handler only sends and logs: it neither closes a socket nor changes the
  registry.
\<close>

definition on_message ::
  "conn list \<Rightarrow> (conn \<Rightarrow> ready_state) \<Rightarrow> conn \<Rightarrow> inbound \<Rightarrow> (nat \<Rightarrow> real) \<Rightarrow> outcome"
where
  "on_message clients rs ws msg clock =
     (case msg of
        Unparsable \<Rightarrow> \<lparr>sends = [], logs = [LogErrorParsing]\<rparr>
      | Parsed data \<Rightarrow>
          if data = JNull then \<lparr>sends = [], logs = [LogErrorParsing]\<rparr>
          else if is_load_video data then
            (if \<not> template_ok (field data ''videoId'')
             then \<lparr>sends = [], logs = [LogErrorParsing]\<rparr>
             else
               let (n, out) = load_loop rs ws data clock clients 0
                     \<lparr>sends = [],
                      logs = [LogBroadcastingVideoId (field data ''videoId''),
                              LogTotalClients (length clients)]\<rparr>
               in out\<lparr>logs := logs out @ [LogBroadcasted n]\<rparr>)
          else if is_playback_action data then
            (if \<not> template_ok (field data ''time'')
             then \<lparr>sends = [], logs = [LogErrorParsing]\<rparr>
             else
               action_loop rs ws data clock clients 0
                 \<lparr>sends = [],
                  logs = [LogBroadcastingAction (field data ''action'') (field data ''time'')]\<rparr>)
          else \<lparr>sends = [], logs = []\<rparr>)"

text \<open>The registry over the life of the relay: connect adds, close and error delete.\<close>

datatype relay_event = Connect conn | Close conn | Error conn

fun registry_step :: "conn list \<Rightarrow> relay_event \<Rightarrow> conn list" where
  "registry_step cs (Connect c) = set_add c cs"
| "registry_step cs (Close c) = set_delete c cs"
| "registry_step cs (Error c) = set_delete c cs"

definition registry_after :: "relay_event list \<Rightarrow> conn list" where
  "registry_after evs = foldl registry_step [] evs"

text \<open>The recipients of a broadcast, in the order the loop visits them.\<close>

definition recipients :: "conn list \<Rightarrow> (conn \<Rightarrow> ready_state) \<Rightarrow> conn \<Rightarrow> conn list" where
  "recipients clients rs ws = filter (\<lambda>c. c \<noteq> ws \<and> rs c = OPEN) clients"

text \<open>How many messages a run sent to the connection \<open>d\<close>.\<close>

definition copies_to :: "conn \<Rightarrow> outcome \<Rightarrow> nat" where
  "copies_to d out = length (filter (\<lambda>p. fst p = d) (sends out))"

text \<open>The copy of an accepted message that the relay sends, stamped with the time \<open>t\<close>.\<close>

definition relay_copy :: "json \<Rightarrow> real \<Rightarrow> json" where
  "relay_copy data t = (if is_load_video data then load_video_msg data t else action_msg data t)"

text \<open>
  The wire shapes in the words of the specification: a Session Load, or a Playback Action
  whose action is PLAY, PAUSE or SEEK and whose position is a number that is not negative.
\<close>

definition spec_wire_shape :: "json \<Rightarrow> bool" where
  "spec_wire_shape data \<longleftrightarrow>
     is_load_video data \<or>
     (is_playback_action data \<and>
      ((\<exists>x. field data ''time'' = Some (JNum x) \<and> 0 \<le> x) \<or>
       field data ''time'' = Some (JInfinity True)))"

text \<open>
  The messages whose broadcast the relay begins: a \<^verbatim>\<open>LOAD_VIDEO\<close> whose video id can be
  written into the log line, or else a playback action whose time can.
\<close>

definition relay_accepts :: "json \<Rightarrow> bool" where
  "relay_accepts data \<longleftrightarrow>
     (if is_load_video data then template_ok (field data ''videoId'')
      else is_playback_action data \<and> template_ok (field data ''time''))"

section \<open>Endpoint: the player component (YouTubePlayer.jsx)\<close>

text \<open>
  The endpoint model covers messages whose fields have the types of the wire schema: the
  action is one of three strings, a time is a number, a timestamp is a number or absent,
  a video id is a string. Times are reals; \<^verbatim>\<open>Date.now()\<close> is a parameter \<open>now\<close>, in
  milliseconds.
\<close>

datatype action = PLAY | PAUSE | SEEK

text \<open>
  The playback backend (the YouTube IFrame player) is a black box. The model keeps what its
  two getters answer and the list of commands issued to it, in order. The commands are
  taken to return normally, so the \<^verbatim>\<open>catch\<close> blocks around them, which only log, are never
  entered.
\<close>

datatype backend_call = SeekTo real bool | PlayVideo | PauseVideo | LoadVideoById string

datatype player_log =
    LogSyncPlayerCalled action real bool bool "real option"
  | WarnPlayerNotInitialized
  | WarnPlayerNotReady
  | LogNetworkLatency real real
  | LogWithinThreshold real
  | LogSynced action real real
  | LogLoadingVideo string
  | LogPlayerNotReadyYet string

record player =
  hasPlayer :: bool                    \<comment> \<open>\<^verbatim>\<open>playerRef.current\<close> is set\<close>
  isReady :: bool
  isSyncing :: bool                    \<comment> \<open>\<^verbatim>\<open>isSyncingRef.current\<close>\<close>
  currentTime :: real                  \<comment> \<open>what \<^verbatim>\<open>getCurrentTime()\<close> answers\<close>
  playerState :: int                   \<comment> \<open>what \<^verbatim>\<open>getPlayerState()\<close> answers\<close>
  calls :: "backend_call list"
  player_console :: "player_log list"
  syncing_timeouts :: "real list"      \<comment> \<open>due times of the pending resets of \<^verbatim>\<open>isSyncingRef\<close>\<close>
  video_deps :: "(string \<times> bool) option"  \<comment> \<open>dependencies at the last run of the video effect\<close>

definition player_log :: "player_log \<Rightarrow> player \<Rightarrow> player" where
  "player_log e p = p\<lparr>player_console := player_console p @ [e]\<rparr>"

definition backend :: "backend_call \<Rightarrow> player \<Rightarrow> player" where
  "backend c p = p\<lparr>calls := calls p @ [c]\<rparr>"

text \<open>
  Lines 219 to 228 of \<^verbatim>\<open>syncPlayer\<close>. \<^verbatim>\<open>if (serverTimestamp)\<close> is a truthiness test:
  \<^verbatim>\<open>null\<close>, \<^verbatim>\<open>undefined\<close> (here \<open>None\<close>) and the number 0 are all falsy.
\<close>

definition truthy_number :: "real option \<Rightarrow> bool" where
  "truthy_number v = (case v of None \<Rightarrow> False | Some x \<Rightarrow> x \<noteq> 0)"

definition compensated_time :: "real \<Rightarrow> real option \<Rightarrow> real \<Rightarrow> real" where
  "compensated_time time serverTimestamp now =
     (if truthy_number serverTimestamp
      then time + (now - the serverTimestamp) / 1000
      else time)"

definition seek_threshold :: "action \<Rightarrow> real" where
  "seek_threshold act = (if act = SEEK then 4 / 10 else 1 / 10)"

definition syncPlayer :: "action \<Rightarrow> real \<Rightarrow> real option \<Rightarrow> real \<Rightarrow> player \<Rightarrow> player" where
  "syncPlayer act time serverTimestamp now p =
     (let p0 = player_log (LogSyncPlayerCalled act time (isReady p) (hasPlayer p) serverTimestamp) p in
      if \<not> hasPlayer p then player_log WarnPlayerNotInitialized p0
      else if \<not> isReady p then player_log WarnPlayerNotReady p0
      else
        let p1 = p0\<lparr>isSyncing := True\<rparr>;
            compensatedTime = compensated_time time serverTimestamp now;
            p2 = (if truthy_number serverTimestamp
                  then player_log (LogNetworkLatency ((now - the serverTimestamp) / 1000) compensatedTime) p1
                  else p1);
            timeDiff = \<bar>compensatedTime - currentTime p2\<bar>;
            seekThreshold = seek_threshold act;
            p3 = (if timeDiff > seekThreshold then backend (SeekTo compensatedTime True) p2 else p2);
            p4 = (case act of
                    PLAY \<Rightarrow> backend PlayVideo p3
                  | PAUSE \<Rightarrow> backend PauseVideo p3
                  | SEEK \<Rightarrow> if timeDiff \<le> seekThreshold
                            then player_log (LogWithinThreshold timeDiff) p3 else p3);
            p5 = player_log (LogSynced act compensatedTime timeDiff) p4
        in p5\<lparr>syncing_timeouts := syncing_timeouts p5 @ [now + 150]\<rparr>)"

text \<open>The methods of the imperative handle that the App reads.\<close>

definition handle_getCurrentTime :: "player \<Rightarrow> real" where
  "handle_getCurrentTime p = (if hasPlayer p then currentTime p else 0)"

definition handle_getPlayerState :: "player \<Rightarrow> int" where
  "handle_getPlayerState p = (if \<not> hasPlayer p then - 1 else playerState p)"

text \<open>
  The effect with dependencies \<^verbatim>\<open>[videoId, isReady]\<close>, and a render of the component with
  the property \<^verbatim>\<open>videoId = v\<close>: React runs the effect when a dependency has changed since
  its last run.
\<close>

definition video_effect :: "string \<Rightarrow> player \<Rightarrow> player" where
  "video_effect v p =
     (if v \<noteq> [] then
        (if isReady p \<and> hasPlayer p
         then backend (LoadVideoById v) (player_log (LogLoadingVideo v) p)
         else player_log (LogPlayerNotReadyYet v) p)
      else p)"

definition player_render :: "string \<Rightarrow> player \<Rightarrow> player" where
  "player_render v p =
     (if video_deps p = Some (v, isReady p) then p
      else (video_effect v p)\<lparr>video_deps := Some (v, isReady p)\<rparr>)"

section \<open>Endpoint: the transport hook (useWebSocketSync.js)\<close>

datatype role = Host | Client

datatype conn_status = StatusDisconnected | StatusConnecting | StatusConnected | StatusError

text \<open>
  What \<^verbatim>\<open>ws.onmessage\<close> finds in the text the relay sent. \<open>MsgUnparsable\<close> stands for
  a text that ends in the handler's \<^verbatim>\<open>catch\<close>: one that does not parse, or parses to
  \<^verbatim>\<open>null\<close>.
\<close>

datatype server_msg =
    MsgUnparsable
  | MsgConnected
  | MsgLoadVideo string
  | MsgAction action real "real option"
  | MsgOther

text \<open>
  What \<^verbatim>\<open>sendSyncEvent\<close> puts on the wire (action, time, timestamp), and the calls the
  hook makes to the App's callbacks.
\<close>

datatype client_msg = SyncEventMsg action real real

datatype callback_call = OnSyncEvent action real "real option" | OnVideoIdSync string

text \<open>
  A pending \<^verbatim>\<open>setTimeout\<close>: its id, when it is due, and what it runs. The reconnect
  callback calls the \<^verbatim>\<open>connect\<close> of the render that created the socket, so it carries
  that render's \<^verbatim>\<open>role\<close> and \<^verbatim>\<open>hostIp\<close>.
\<close>

datatype timeout_cb = ClearApplyingRemoteChange | Reconnect "role option" string

record timeout =
  timeout_id :: nat
  due :: real
  cb :: timeout_cb

datatype ws_log =
    LogNotSendingApplyingRemote
  | LogSentSyncEvent action real
  | WarnSocketNotOpen
  | LogErrorParsingMessage

text \<open>
  The hook's state and the part of the browser it uses: the WebSocket objects it has
  created (named by a number; each keeps its \<^verbatim>\<open>readyState\<close> and the \<^verbatim>\<open>role\<close> and
  \<^verbatim>\<open>hostIp\<close> its handlers closed over), the pending timeouts, what was sent on which
  socket, and the console. Timer ids are positive, as in a browser, so an id is truthy.
\<close>

record ws_sync =
  connectionStatus :: conn_status
  lastSyncAction :: "(action \<times> real \<times> real) option"
  wsRef :: "nat option"
  isApplyingRemoteChange :: bool
  reconnectTimeoutRef :: "nat option"
  sock_ready :: "nat \<Rightarrow> ready_state"
  sock_role :: "nat \<Rightarrow> role option"
  sock_hostIp :: "nat \<Rightarrow> string"
  next_sock :: nat
  timeouts :: "timeout list"
  next_timeout :: nat
  sent :: "(nat \<times> client_msg) list"
  console :: "ws_log list"

definition ws_init :: ws_sync where
  "ws_init =
     \<lparr>connectionStatus = StatusDisconnected, lastSyncAction = None, wsRef = None,
      isApplyingRemoteChange = False, reconnectTimeoutRef = None,
      sock_ready = (\<lambda>_. CLOSED), sock_role = (\<lambda>_. None), sock_hostIp = (\<lambda>_. []),
      next_sock = 0, timeouts = [], next_timeout = 1, sent = [], console = []\<rparr>"

definition set_timeout :: "real \<Rightarrow> timeout_cb \<Rightarrow> ws_sync \<Rightarrow> ws_sync" where
  "set_timeout d c h =
     h\<lparr>timeouts := timeouts h @ [\<lparr>timeout_id = next_timeout h, due = d, cb = c\<rparr>],
       next_timeout := Suc (next_timeout h)\<rparr>"

definition clear_timeout :: "nat \<Rightarrow> ws_sync \<Rightarrow> ws_sync" where
  "clear_timeout i h = h\<lparr>timeouts := filter (\<lambda>t. timeout_id t \<noteq> i) (timeouts h)\<rparr>"

text \<open>
  \<^verbatim>\<open>connect\<close>. The choice of the URL is outside the model; \<open>valid_url role hostIp\<close> says
  whether \<^verbatim>\<open>new WebSocket(wsUrl)\<close> accepts it (the constructor throws on a malformed URL,
  and the \<^verbatim>\<open>catch\<close> sets the status to error).
\<close>

definition ws_connect ::
  "(role option \<Rightarrow> string \<Rightarrow> bool) \<Rightarrow> role option \<Rightarrow> string \<Rightarrow> ws_sync \<Rightarrow> ws_sync"
where
  "ws_connect valid_url r ip h =
     (if (case wsRef h of None \<Rightarrow> False | Some s \<Rightarrow> sock_ready h s = OPEN) then h
      else if ip = [] \<and> r = Some Client then h
      else
        let h1 = h\<lparr>connectionStatus := StatusConnecting\<rparr> in
        if \<not> valid_url r ip then h1\<lparr>connectionStatus := StatusError\<rparr>
        else h1\<lparr>sock_ready := (sock_ready h1)(next_sock h1 := CONNECTING),
                sock_role := (sock_role h1)(next_sock h1 := r),
                sock_hostIp := (sock_hostIp h1)(next_sock h1 := ip),
                wsRef := Some (next_sock h1),
                next_sock := Suc (next_sock h1)\<rparr>)"

text \<open>
  The four handlers of a socket \<open>s\<close>. The browser sets the socket's \<^verbatim>\<open>readyState\<close>
  before it calls \<^verbatim>\<open>onopen\<close> and \<^verbatim>\<open>onclose\<close>; the model records that change at the
  start of the handler.
\<close>

definition ws_onopen :: "nat \<Rightarrow> ws_sync \<Rightarrow> ws_sync" where
  "ws_onopen s h =
     (let h1 = h\<lparr>sock_ready := (sock_ready h)(s := OPEN), connectionStatus := StatusConnected\<rparr> in
      case reconnectTimeoutRef h1 of
        None \<Rightarrow> h1
      | Some i \<Rightarrow> (clear_timeout i h1)\<lparr>reconnectTimeoutRef := None\<rparr>)"

text \<open>
  \<^verbatim>\<open>ws.onmessage\<close>. The callback is called between the setting of the flag and the
  \<^verbatim>\<open>setTimeout\<close>; the App's callbacks do not touch the hook, so the call is returned
  beside the new state. \<^verbatim>\<open>data.timestamp || Date.now()\<close> is again a truthiness test.
\<close>

definition ws_onmessage :: "real \<Rightarrow> server_msg \<Rightarrow> ws_sync \<Rightarrow> callback_call option \<times> ws_sync" where
  "ws_onmessage now msg h =
     (case msg of
        MsgUnparsable \<Rightarrow> (None, h\<lparr>console := console h @ [LogErrorParsingMessage]\<rparr>)
      | MsgConnected \<Rightarrow> (None, h)
      | MsgLoadVideo v \<Rightarrow> (Some (OnVideoIdSync v), h)
      | MsgAction act time ts \<Rightarrow>
          (Some (OnSyncEvent act time ts),
           set_timeout (now + 100) ClearApplyingRemoteChange
             (h\<lparr>isApplyingRemoteChange := True,
                lastSyncAction := Some (act, time, if truthy_number ts then the ts else now)\<rparr>))
      | MsgOther \<Rightarrow> (None, h))"

definition ws_onerror :: "nat \<Rightarrow> ws_sync \<Rightarrow> ws_sync" where
  "ws_onerror s h = h\<lparr>connectionStatus := StatusError\<rparr>"

definition ws_onclose :: "real \<Rightarrow> nat \<Rightarrow> ws_sync \<Rightarrow> ws_sync" where
  "ws_onclose now s h =
     (let h1 = h\<lparr>sock_ready := (sock_ready h)(s := CLOSED), connectionStatus := StatusDisconnected\<rparr> in
      if sock_role h1 s = Some Client \<and> sock_hostIp h1 s \<noteq> []
      then (set_timeout (now + 3000) (Reconnect (sock_role h1 s) (sock_hostIp h1 s)) h1)
             \<lparr>reconnectTimeoutRef := Some (next_timeout h1)\<rparr>
      else h1)"

text \<open>
  \<^verbatim>\<open>disconnect\<close>. \<^verbatim>\<open>close()\<close> on a socket that is not yet closed moves it to CLOSING; the
  browser fires the socket's close event once the connection is down.
\<close>

definition sock_close :: "nat \<Rightarrow> ws_sync \<Rightarrow> ws_sync" where
  "sock_close s h =
     (if sock_ready h s = CLOSED then h else h\<lparr>sock_ready := (sock_ready h)(s := CLOSING)\<rparr>)"

definition ws_disconnect :: "ws_sync \<Rightarrow> ws_sync" where
  "ws_disconnect h =
     (let h1 = (case reconnectTimeoutRef h of
                  None \<Rightarrow> h
                | Some i \<Rightarrow> (clear_timeout i h)\<lparr>reconnectTimeoutRef := None\<rparr>);
          h2 = (case wsRef h1 of
                  None \<Rightarrow> h1
                | Some s \<Rightarrow> (sock_close s h1)\<lparr>wsRef := None\<rparr>)
      in h2\<lparr>connectionStatus := StatusDisconnected\<rparr>)"

definition sendSyncEvent :: "action \<Rightarrow> real \<Rightarrow> real \<Rightarrow> ws_sync \<Rightarrow> ws_sync" where
  "sendSyncEvent act time now h =
     (if isApplyingRemoteChange h then h\<lparr>console := console h @ [LogNotSendingApplyingRemote]\<rparr>
      else case wsRef h of
        None \<Rightarrow> h\<lparr>console := console h @ [WarnSocketNotOpen]\<rparr>
      | Some s \<Rightarrow>
          if sock_ready h s = OPEN
          then h\<lparr>sent := sent h @ [(s, SyncEventMsg act time now)],
                 console := console h @ [LogSentSyncEvent act time]\<rparr>
          else h\<lparr>console := console h @ [WarnSocketNotOpen]\<rparr>)"

text \<open>A timeout that is still pending fires: it leaves the table and its callback runs.\<close>

definition run_timeout_cb ::
  "(role option \<Rightarrow> string \<Rightarrow> bool) \<Rightarrow> timeout_cb \<Rightarrow> ws_sync \<Rightarrow> ws_sync"
where
  "run_timeout_cb valid_url c h =
     (case c of
        ClearApplyingRemoteChange \<Rightarrow> h\<lparr>isApplyingRemoteChange := False\<rparr>
      | Reconnect r ip \<Rightarrow> ws_connect valid_url r ip h)"

definition fire_timeout :: "(role option \<Rightarrow> string \<Rightarrow> bool) \<Rightarrow> real \<Rightarrow> nat \<Rightarrow> ws_sync \<Rightarrow> ws_sync" where
  "fire_timeout valid_url now i h =
     (case find (\<lambda>t. timeout_id t = i) (timeouts h) of
        None \<Rightarrow> h
      | Some t \<Rightarrow> if due t \<le> now then run_timeout_cb valid_url (cb t) (clear_timeout i h) else h)"

text \<open>
  What can happen to the hook: the user's connect and disconnect, a local send, and the
  browser's events. The browser delivers a socket event only for a socket that exists and
  is in the right state, and fires only a pending timeout that is due.
\<close>

datatype ws_event =
    UserConnect
  | UserDisconnect
  | LocalSend action real
  | SockOpen nat
  | SockMessage nat server_msg
  | SockError nat
  | SockClose nat
  | TimeoutFires nat

definition ws_step ::
  "(role option \<Rightarrow> string \<Rightarrow> bool) \<Rightarrow> role option \<Rightarrow> string \<Rightarrow> ws_sync \<Rightarrow> real \<times> ws_event \<Rightarrow> ws_sync"
where
  "ws_step valid_url r ip h tev =
     (case tev of (now, ev) \<Rightarrow>
        (case ev of
           UserConnect \<Rightarrow> ws_connect valid_url r ip h
         | UserDisconnect \<Rightarrow> ws_disconnect h
         | LocalSend act time \<Rightarrow> sendSyncEvent act time now h
         | SockOpen s \<Rightarrow>
             if s < next_sock h \<and> sock_ready h s = CONNECTING then ws_onopen s h else h
         | SockMessage s msg \<Rightarrow>
             if s < next_sock h \<and> sock_ready h s = OPEN then snd (ws_onmessage now msg h) else h
         | SockError s \<Rightarrow>
             if s < next_sock h \<and> sock_ready h s \<noteq> CLOSED then ws_onerror s h else h
         | SockClose s \<Rightarrow>
             if s < next_sock h \<and> sock_ready h s \<noteq> CLOSED then ws_onclose now s h else h
         | TimeoutFires i \<Rightarrow> fire_timeout valid_url now i h))"

definition ws_run ::
  "(role option \<Rightarrow> string \<Rightarrow> bool) \<Rightarrow> role option \<Rightarrow> string \<Rightarrow> (real \<times> ws_event) list \<Rightarrow> ws_sync"
where
  "ws_run valid_url r ip evs = foldl (ws_step valid_url r ip) ws_init evs"

section \<open>Endpoint: the session controller (App.jsx)\<close>

datatype app_log =
    LogHandleSyncEventCalled action real "real option"
  | LogCallingSyncPlayer
  | LogSyncEventIgnored
  | LogReceivedVideoId string
  | WarnInvalidVideoId
  | LogVideoIdSet string

text \<open>
  The App's React state, the ref that holds the id of the periodic interval, the browser's
  table of active \<^verbatim>\<open>setInterval\<close> timers (id and period; the App starts no other), and what
  React remembers of the periodic effect: the dependencies at its last run and whether that
  run returned a cleanup function.
\<close>

record app =
  app_role :: "role option"
  hostIp :: string
  videoId :: string
  videoIdInput :: string
  isPlaying :: bool
  periodicSyncIntervalRef :: "nat option"
  intervals :: "(nat \<times> real) list"
  next_interval :: nat
  sync_deps :: "(role option \<times> bool \<times> bool \<times> string) option"
  sync_cleanup :: bool
  app_console :: "app_log list"

definition app_init :: app where
  "app_init =
     \<lparr>app_role = None, hostIp = [], videoId = [], videoIdInput = [], isPlaying = False,
      periodicSyncIntervalRef = None, intervals = [], next_interval = 1,
      sync_deps = None, sync_cleanup = False, app_console = []\<rparr>"

text \<open>
  \<^verbatim>\<open>handleSyncEvent\<close>. The App's \<^verbatim>\<open>playerRef.current\<close> is the handle of the player
  component, \<open>None\<close> while that component is not mounted.
\<close>

definition handleSyncEvent ::
  "action \<Rightarrow> real \<Rightarrow> real option \<Rightarrow> real \<Rightarrow> app \<times> player option \<Rightarrow> app \<times> player option"
where
  "handleSyncEvent act time serverTimestamp now ap =
     (case ap of (a, p) \<Rightarrow>
        let a0 = a\<lparr>app_console := app_console a @ [LogHandleSyncEventCalled act time serverTimestamp]\<rparr> in
        case p of
          None \<Rightarrow> (a0\<lparr>app_console := app_console a0 @ [LogSyncEventIgnored]\<rparr>, None)
        | Some pl \<Rightarrow>
            if app_role a = Some Client then
              (let a1 = a0\<lparr>app_console := app_console a0 @ [LogCallingSyncPlayer]\<rparr>;
                   pl' = syncPlayer act time serverTimestamp now pl
               in (case act of
                     PLAY \<Rightarrow> a1\<lparr>isPlaying := True\<rparr>
                   | PAUSE \<Rightarrow> a1\<lparr>isPlaying := False\<rparr>
                   | SEEK \<Rightarrow> a1,
                   Some pl'))
            else (a0\<lparr>app_console := app_console a0 @ [LogSyncEventIgnored]\<rparr>, Some pl))"

text \<open>\<^verbatim>\<open>handleVideoIdSync\<close>; \<^verbatim>\<open>!videoId\<close> holds of the empty string.\<close>

definition handleVideoIdSync :: "string \<Rightarrow> app \<Rightarrow> app" where
  "handleVideoIdSync v a =
     (let a0 = a\<lparr>app_console := app_console a @ [LogReceivedVideoId v]\<rparr> in
      if v = [] then a0\<lparr>app_console := app_console a0 @ [WarnInvalidVideoId]\<rparr>
      else a0\<lparr>videoId := v, videoIdInput := v, isPlaying := False,
              app_console := app_console a0 @ [LogVideoIdSet v]\<rparr>)"

text \<open>
  The callback of the periodic interval. It reads the handle and sends through the hook;
  it writes to the console only through \<^verbatim>\<open>sendSyncEvent\<close>.
\<close>

definition periodic_tick :: "real \<Rightarrow> player option \<Rightarrow> ws_sync \<Rightarrow> ws_sync" where
  "periodic_tick now p h =
     (case p of
        None \<Rightarrow> h
      | Some pl \<Rightarrow>
          if isReady pl then
            (let cur = handle_getCurrentTime pl;
                 st = handle_getPlayerState pl
             in if st = 1 then sendSyncEvent SEEK cur now h else h)
          else h)"

text \<open>\<^verbatim>\<open>playerRef.current?.isReady\<close>\<close>

definition handle_isReady :: "player option \<Rightarrow> bool" where
  "handle_isReady p = (case p of None \<Rightarrow> False | Some pl \<Rightarrow> isReady pl)"

definition clear_interval :: "nat \<Rightarrow> app \<Rightarrow> app" where
  "clear_interval i a = a\<lparr>intervals := filter (\<lambda>t. fst t \<noteq> i) (intervals a)\<rparr>"

text \<open>
  The periodic effect: the function React calls, and the cleanup function that the first
  branch returns. Both clear the interval whose id the ref holds.
\<close>

definition periodic_clear :: "app \<Rightarrow> app" where
  "periodic_clear a =
     (case periodicSyncIntervalRef a of
        None \<Rightarrow> a
      | Some i \<Rightarrow> (clear_interval i a)\<lparr>periodicSyncIntervalRef := None\<rparr>)"

definition periodic_effect :: "bool \<Rightarrow> player option \<Rightarrow> app \<Rightarrow> app" where
  "periodic_effect isConnected p a =
     (if app_role a = Some Host \<and> isConnected \<and> isPlaying a \<and> videoId a \<noteq> [] \<and> handle_isReady p
      then a\<lparr>periodicSyncIntervalRef := Some (next_interval a),
             intervals := intervals a @ [(next_interval a, 3000)],
             next_interval := Suc (next_interval a),
             sync_cleanup := True\<rparr>
      else (periodic_clear a)\<lparr>sync_cleanup := False\<rparr>)"

text \<open>
  A render followed by React's effect phase: when a dependency
  (\<^verbatim>\<open>role, isConnected, isPlaying, videoId\<close>; \<^verbatim>\<open>sendSyncEvent\<close> changes only with the role)
  differs from the last run, React first runs the cleanup of the last run, if it returned
  one, and then the effect. Unmounting runs the pending cleanup.
\<close>

definition app_render :: "bool \<Rightarrow> player option \<Rightarrow> app \<Rightarrow> app" where
  "app_render isConnected p a =
     (let deps = (app_role a, isConnected, isPlaying a, videoId a) in
      if sync_deps a = Some deps then a
      else (periodic_effect isConnected p (if sync_cleanup a then periodic_clear a else a))
             \<lparr>sync_deps := Some deps\<rparr>)"

definition app_unmount :: "app \<Rightarrow> app" where
  "app_unmount a = (if sync_cleanup a then periodic_clear a else a)\<lparr>sync_cleanup := False, sync_deps := None\<rparr>"

text \<open>
  The life of a mounted App: each step sets the React state (any of the five state
  variables may change) and renders, with the connection status and the player handle as
  they are at that render.
\<close>

record app_update =
  new_role :: "role option"
  new_hostIp :: string
  new_videoId :: string
  new_videoIdInput :: string
  new_isPlaying :: bool
  now_connected :: bool
  now_player :: "player option"

definition app_step :: "app \<Rightarrow> app_update \<Rightarrow> app" where
  "app_step a u =
     app_render (now_connected u) (now_player u)
       (a\<lparr>app_role := new_role u, hostIp := new_hostIp u, videoId := new_videoId u,
          videoIdInput := new_videoIdInput u, isPlaying := new_isPlaying u\<rparr>)"

definition app_run :: "bool \<Rightarrow> player option \<Rightarrow> app_update list \<Rightarrow> app" where
  "app_run c0 p0 us = foldl app_step (app_render c0 p0 app_init) us"

text \<open>The browser fires the interval \<open>i\<close>, if it is still active.\<close>

definition fire_interval :: "nat \<Rightarrow> real \<Rightarrow> app \<Rightarrow> player option \<Rightarrow> ws_sync \<Rightarrow> ws_sync" where
  "fire_interval i now a p h = (if i \<in> fst ` set (intervals a) then periodic_tick now p h else h)"

text \<open>
  What holds of the periodic timer after every render: the table of intervals holds the
  interval the ref names, with period 3000, and nothing else; a run of the effect that
  returned no cleanup left the ref empty; and while the ref is set, the dependencies of the
  last run were host, connected, playing and a video id that is not empty.
\<close>

definition periodic_inv :: "app \<Rightarrow> bool" where
  "periodic_inv a \<longleftrightarrow>
     intervals a = (case periodicSyncIntervalRef a of None \<Rightarrow> [] | Some i \<Rightarrow> [(i, 3000)]) \<and>
     (sync_cleanup a \<or> periodicSyncIntervalRef a = None) \<and>
     (periodicSyncIntervalRef a = None \<or>
        (\<exists>v. v \<noteq> [] \<and> sync_deps a = Some (Some Host, True, True, v)))"

text \<open>
  The player handle over the life of the App. The App renders the player component exactly
  while the video id is not empty, and the component sets \<^verbatim>\<open>isReady\<close> only in
  \<^verbatim>\<open>onReady\<close>, to true and together with \<^verbatim>\<open>playerRef.current\<close>. So a handle that is ready
  has its player, and from one render to the next a ready handle stays ready unless the
  video id is emptied in between. \<open>handle_lifecycle p v us\<close> says that of the renders \<open>us\<close>
  that follow a render with the handle \<open>p\<close> and the video id \<open>v\<close>.
\<close>

definition handle_has_player :: "player option \<Rightarrow> bool" where
  "handle_has_player p = (case p of None \<Rightarrow> False | Some pl \<Rightarrow> hasPlayer pl)"

fun handle_lifecycle :: "player option \<Rightarrow> string \<Rightarrow> app_update list \<Rightarrow> bool" where
  "handle_lifecycle p v [] = True"
| "handle_lifecycle p v (u # us) =
     ((handle_isReady (now_player u) \<longrightarrow> handle_has_player (now_player u)) \<and>
      (handle_isReady p \<and> v \<noteq> [] \<and> new_videoId u \<noteq> [] \<longrightarrow> handle_isReady (now_player u)) \<and>
      handle_lifecycle (now_player u) (new_videoId u) us)"

text \<open>The handle at the last render.\<close>

definition last_handle :: "player option \<Rightarrow> app_update list \<Rightarrow> player option" where
  "last_handle p0 us = (if us = [] then p0 else now_player (last us))"

text \<open>
  What holds of the timeout table in every state the hook reaches: the ids in use lie below
  the next id, and the id in \<^verbatim>\<open>reconnectTimeoutRef\<close> never names a pending reset of the
  flag.
\<close>

definition ws_inv :: "ws_sync \<Rightarrow> bool" where
  "ws_inv h \<longleftrightarrow>
     (\<forall>t \<in> set (timeouts h). timeout_id t < next_timeout h) \<and>
     (\<forall>i. reconnectTimeoutRef h = Some i \<longrightarrow> i < next_timeout h) \<and>
     (\<forall>t \<in> set (timeouts h).
        reconnectTimeoutRef h = Some (timeout_id t) \<longrightarrow> cb t \<noteq> ClearApplyingRemoteChange)"

section \<open>Relay: lemmas\<close>

lemma registry_step_distinct: "distinct cs \<Longrightarrow> distinct (registry_step cs ev)"
  by (cases ev) (auto simp: set_add_def set_delete_def distinct_removeAll)

lemma foldl_registry_distinct: "distinct cs \<Longrightarrow> distinct (foldl registry_step cs evs)"
  by (induction evs arbitrary: cs) (auto simp: registry_step_distinct)

lemma registry_after_distinct: "distinct (registry_after evs)"
  by (simp add: registry_after_def foldl_registry_distinct)

lemma action_loop_sends:
  "sends (action_loop rs ws data clock cs n out) =
     sends out @ map (\<lambda>(i, c). (c, action_msg data (clock i)))
                     (enumerate n (recipients cs rs ws))"
proof (induction cs arbitrary: n out)
  case Nil
  then show ?case by (simp add: recipients_def)
next
  case (Cons c cs)
  show ?case
  proof (cases "c \<noteq> ws \<and> rs c = OPEN")
    case True
    then have r: "recipients (c # cs) rs ws = c # recipients cs rs ws"
      by (simp add: recipients_def)
    show ?thesis using True
      by (simp add: Cons.IH r)
  next
    case False
    then have r: "recipients (c # cs) rs ws = recipients cs rs ws"
      by (auto simp: recipients_def)
    show ?thesis using False Cons.IH r by auto
  qed
qed

lemma load_loop_sends:
  "sends (snd (load_loop rs ws data clock cs n out)) =
     sends out @ map (\<lambda>(i, c). (c, load_video_msg data (clock i)))
                     (enumerate n (recipients cs rs ws))"
proof (induction cs arbitrary: n out)
  case Nil
  then show ?case by (simp add: recipients_def)
next
  case (Cons c cs)
  show ?case
  proof (cases "c \<noteq> ws \<and> rs c = OPEN")
    case True
    then have r: "recipients (c # cs) rs ws = c # recipients cs rs ws"
      by (simp add: recipients_def)
    show ?thesis using True
      by (simp add: Cons.IH r)
  next
    case False
    then have r: "recipients (c # cs) rs ws = recipients cs rs ws"
      by (auto simp: recipients_def)
    show ?thesis using False Cons.IH r by auto
  qed
qed

lemma is_load_video_not_null: "is_load_video data \<Longrightarrow> data \<noteq> JNull"
  by (auto simp: is_load_video_def)

lemma is_playback_action_not_null: "is_playback_action data \<Longrightarrow> data \<noteq> JNull"
  by (auto simp: is_playback_action_def)

lemma on_message_load_sends:
  assumes "is_load_video data" and "template_ok (field data ''videoId'')"
  shows "sends (on_message cs rs ws (Parsed data) clock) =
           map (\<lambda>(i, c). (c, load_video_msg data (clock i))) (enumerate 0 (recipients cs rs ws))"
proof -
  have "data \<noteq> JNull" using assms(1) by (rule is_load_video_not_null)
  then show ?thesis
    using assms by (simp add: on_message_def case_prod_beta load_loop_sends)
qed

lemma on_message_load_throws:
  assumes "is_load_video data" and "\<not> template_ok (field data ''videoId'')"
  shows "on_message cs rs ws (Parsed data) clock = \<lparr>sends = [], logs = [LogErrorParsing]\<rparr>"
proof -
  have "data \<noteq> JNull" using assms(1) by (rule is_load_video_not_null)
  then show ?thesis using assms by (simp add: on_message_def)
qed

lemma on_message_action_sends:
  assumes "\<not> is_load_video data" and "is_playback_action data"
    and "template_ok (field data ''time'')"
  shows "sends (on_message cs rs ws (Parsed data) clock) =
           map (\<lambda>(i, c). (c, action_msg data (clock i))) (enumerate 0 (recipients cs rs ws))"
proof -
  have "data \<noteq> JNull" using assms(2) by (rule is_playback_action_not_null)
  then show ?thesis
    using assms by (simp add: on_message_def action_loop_sends)
qed

lemma on_message_action_throws:
  assumes "\<not> is_load_video data" and "is_playback_action data"
    and "\<not> template_ok (field data ''time'')"
  shows "on_message cs rs ws (Parsed data) clock = \<lparr>sends = [], logs = [LogErrorParsing]\<rparr>"
proof -
  have "data \<noteq> JNull" using assms(2) by (rule is_playback_action_not_null)
  then show ?thesis using assms by (simp add: on_message_def)
qed

lemma on_message_accepted_sends:
  assumes "relay_accepts data"
  shows "sends (on_message cs rs ws (Parsed data) clock) =
           map (\<lambda>(i, c). (c, relay_copy data (clock i))) (enumerate 0 (recipients cs rs ws))"
proof (cases "is_load_video data")
  case True
  with assms have "template_ok (field data ''videoId'')" by (simp add: relay_accepts_def)
  with True show ?thesis by (simp add: on_message_load_sends relay_copy_def)
next
  case False
  with assms have "is_playback_action data" "template_ok (field data ''time'')"
    by (simp_all add: relay_accepts_def)
  with False show ?thesis by (simp add: on_message_action_sends relay_copy_def)
qed

lemma on_message_not_accepted:
  assumes "\<not> relay_accepts data"
  shows "on_message cs rs ws (Parsed data) clock =
           \<lparr>sends = [],
            logs = (if data = JNull \<or> is_load_video data \<or> is_playback_action data
                    then [LogErrorParsing] else [])\<rparr>"
proof (cases "is_load_video data")
  case True
  with assms have "\<not> template_ok (field data ''videoId'')" by (simp add: relay_accepts_def)
  with True show ?thesis by (simp add: on_message_load_throws)
next
  case nl: False
  show ?thesis
  proof (cases "is_playback_action data")
    case True
    with assms nl have "\<not> template_ok (field data ''time'')" by (simp add: relay_accepts_def)
    with nl True show ?thesis by (simp add: on_message_action_throws)
  next
    case False
    with nl show ?thesis by (simp add: on_message_def)
  qed
qed

lemma on_message_rejected:
  assumes "\<not> is_load_video data" and "\<not> is_playback_action data" and "data \<noteq> JNull"
  shows "on_message cs rs ws (Parsed data) clock = \<lparr>sends = [], logs = []\<rparr>"
  using assms by (simp add: on_message_def)

lemma on_message_unparsable:
  "on_message cs rs ws Unparsable clock = \<lparr>sends = [], logs = [LogErrorParsing]\<rparr>"
  "on_message cs rs ws (Parsed JNull) clock = \<lparr>sends = [], logs = [LogErrorParsing]\<rparr>"
  by (simp_all add: on_message_def)

lemma filter_fst_stamped:
  "filter (\<lambda>p. fst p = d) (map (\<lambda>(i, c). (c, f i)) (enumerate n xs)) =
     map (\<lambda>(i, c). (c, f i)) (filter (\<lambda>p. snd p = d) (enumerate n xs))"
  by (induction xs arbitrary: n) auto

lemma length_filter_snd_enumerate:
  "length (filter (\<lambda>p. snd p = d) (enumerate n xs)) = length (filter (\<lambda>c. c = d) xs)"
  by (induction xs arbitrary: n) auto

lemma copies_stamped:
  "length (filter (\<lambda>p. fst p = d) (map (\<lambda>(i, c). (c, f i)) (enumerate n xs))) =
     length (filter (\<lambda>c. c = d) xs)"
  by (simp add: filter_fst_stamped length_filter_snd_enumerate)

lemma distinct_count_one:
  "distinct xs \<Longrightarrow> length (filter (\<lambda>c. c = d) xs) = (if d \<in> set xs then 1 else 0)"
  by (induction xs) auto

lemma recipients_distinct: "distinct cs \<Longrightarrow> distinct (recipients cs rs ws)"
  by (simp add: recipients_def)

lemma recipients_set:
  "d \<in> set (recipients cs rs ws) \<longleftrightarrow> d \<in> set cs \<and> d \<noteq> ws \<and> rs d = OPEN"
  by (auto simp: recipients_def)

lemma copies_to_accepted:
  assumes "relay_accepts data" and "distinct cs"
  shows "copies_to d (on_message cs rs ws (Parsed data) clock) =
           (if d \<in> set cs \<and> d \<noteq> ws \<and> rs d = OPEN then 1 else 0)"
proof -
  have "copies_to d (on_message cs rs ws (Parsed data) clock) =
          length (filter (\<lambda>c. c = d) (recipients cs rs ws))"
    unfolding copies_to_def on_message_accepted_sends [OF assms(1)] by (rule copies_stamped)
  also have "\<dots> = (if d \<in> set (recipients cs rs ws) then 1 else 0)"
    using assms(2) by (simp add: distinct_count_one recipients_distinct)
  finally show ?thesis by (simp add: recipients_set)
qed

lemma load_msg_not_action_msg: "load_video_msg data t \<noteq> action_msg data t'"
  by (simp add: load_video_msg_def action_msg_def opt_prop_def split: option.splits)

lemma length_recipients: "length (recipients cs rs ws) \<le> length cs"
  by (simp add: recipients_def)

lemma fst_set_stamped: "fst ` set (map (\<lambda>(i, c). (c, f i)) (enumerate n xs)) = set xs"
  by (induction xs arbitrary: n) auto

lemma stamped_not_sender:
  "p \<in> set (map (\<lambda>(i, c). (c, f i)) (enumerate n (recipients cs rs ws))) \<Longrightarrow> fst p \<noteq> ws"
proof -
  assume "p \<in> set (map (\<lambda>(i, c). (c, f i)) (enumerate n (recipients cs rs ws)))"
  then have "fst p \<in> fst ` set (map (\<lambda>(i, c). (c, f i)) (enumerate n (recipients cs rs ws)))"
    by (rule imageI)
  then have "fst p \<in> set (recipients cs rs ws)" by (simp only: fst_set_stamped)
  then show ?thesis by (simp add: recipients_set)
qed

lemma relay_copy_timestamp: "field (relay_copy data t) ''timestamp'' = Some (JNum t)"
  by (simp add: relay_copy_def load_video_msg_def action_msg_def opt_prop_def split: option.splits)

lemma relay_copy_load_fields:
  "is_load_video data \<Longrightarrow>
     field (relay_copy data t) ''type'' = Some (JStr ''LOAD_VIDEO'') \<and>
     field (relay_copy data t) ''videoId'' = map_option stringified (field data ''videoId'')"
  by (simp add: relay_copy_def load_video_msg_def opt_prop_def split: option.splits)

lemma relay_copy_action_fields:
  "\<not> is_load_video data \<Longrightarrow>
     field (relay_copy data t) ''action'' = map_option stringified (field data ''action'') \<and>
     field (relay_copy data t) ''time'' = map_option stringified (field data ''time'')"
  by (simp add: relay_copy_def action_msg_def opt_prop_def split: option.splits)

lemma load_loop_logs:
  assumes "\<forall>x y. LogBroadcastingAction x y \<notin> set (logs out)"
  shows "\<forall>x y. LogBroadcastingAction x y \<notin> set (logs (snd (load_loop rs ws data clock cs n out)))"
  using assms by (induction cs arbitrary: n out) auto

lemma on_message_load_logs:
  assumes "is_load_video data"
  shows "\<forall>x y. LogBroadcastingAction x y \<notin> set (logs (on_message cs rs ws (Parsed data) clock))"
proof (cases "template_ok (field data ''videoId'')")
  case True
  have "data \<noteq> JNull" using assms by (rule is_load_video_not_null)
  moreover have "\<forall>x y. LogBroadcastingAction x y \<notin>
      set (logs (snd (load_loop rs ws data clock cs 0
        \<lparr>sends = [], logs = [LogBroadcastingVideoId (field data ''videoId''),
                             LogTotalClients (length cs)]\<rparr>)))"
    by (rule load_loop_logs) simp
  ultimately show ?thesis using assms True by (simp add: on_message_def case_prod_beta)
next
  case False
  with assms show ?thesis by (simp add: on_message_load_throws)
qed

section \<open>Player: lemmas\<close>

lemma syncPlayer_not_ready:
  assumes "\<not> hasPlayer p \<or> \<not> isReady p"
  shows "syncPlayer act time ts now p =
           p\<lparr>player_console := player_console p @
               [LogSyncPlayerCalled act time (isReady p) (hasPlayer p) ts,
                if \<not> hasPlayer p then WarnPlayerNotInitialized else WarnPlayerNotReady]\<rparr>"
  using assms by (auto simp: syncPlayer_def player_log_def)

lemma syncPlayer_calls:
  assumes "hasPlayer p" and "isReady p"
  shows "calls (syncPlayer act time ts now p) =
           calls p
           @ (if \<bar>compensated_time time ts now - currentTime p\<bar> > seek_threshold act
              then [SeekTo (compensated_time time ts now) True] else [])
           @ (case act of PLAY \<Rightarrow> [PlayVideo] | PAUSE \<Rightarrow> [PauseVideo] | SEEK \<Rightarrow> [])"
  using assms
  by (cases act) (simp_all add: syncPlayer_def player_log_def backend_def Let_def)

lemma syncPlayer_flag:
  assumes "hasPlayer p" and "isReady p"
  shows "isSyncing (syncPlayer act time ts now p) \<and>
         syncing_timeouts (syncPlayer act time ts now p) = syncing_timeouts p @ [now + 150]"
  using assms
  by (cases act) (simp_all add: syncPlayer_def player_log_def backend_def Let_def)

section \<open>Transport hook: lemmas\<close>

lemma ws_onmessage_action:
  "snd (ws_onmessage now (MsgAction act time ts) h) =
     h\<lparr>isApplyingRemoteChange := True,
       lastSyncAction := Some (act, time, if truthy_number ts then the ts else now),
       timeouts := timeouts h @
         [\<lparr>timeout_id = next_timeout h, due = now + 100, cb = ClearApplyingRemoteChange\<rparr>],
       next_timeout := Suc (next_timeout h)\<rparr>"
  by (simp add: ws_onmessage_def set_timeout_def)

lemma ws_onmessage_flag_sent:
  "isApplyingRemoteChange h \<Longrightarrow> isApplyingRemoteChange (snd (ws_onmessage now msg h))"
  "sent (snd (ws_onmessage now msg h)) = sent h"
  by (cases msg; simp add: ws_onmessage_def set_timeout_def)+

lemma sendSyncEvent_suppressed:
  "isApplyingRemoteChange h \<Longrightarrow>
     sendSyncEvent act time now h = h\<lparr>console := console h @ [LogNotSendingApplyingRemote]\<rparr>"
  by (simp add: sendSyncEvent_def)

lemma ws_connect_flag_sent:
  "isApplyingRemoteChange (ws_connect v r ip h) = isApplyingRemoteChange h"
  "sent (ws_connect v r ip h) = sent h"
  by (simp_all add: ws_connect_def Let_def split: option.splits)

lemma ws_disconnect_flag_sent:
  "isApplyingRemoteChange (ws_disconnect h) = isApplyingRemoteChange h"
  "sent (ws_disconnect h) = sent h"
  by (simp_all add: ws_disconnect_def sock_close_def clear_timeout_def Let_def split: option.splits)

lemma ws_onopen_flag_sent:
  "isApplyingRemoteChange (ws_onopen s h) = isApplyingRemoteChange h"
  "sent (ws_onopen s h) = sent h"
  by (simp_all add: ws_onopen_def clear_timeout_def Let_def split: option.splits)

lemma ws_onclose_flag_sent:
  "isApplyingRemoteChange (ws_onclose now s h) = isApplyingRemoteChange h"
  "sent (ws_onclose now s h) = sent h"
  by (simp_all add: ws_onclose_def set_timeout_def Let_def)

lemma ws_step_keeps_flag:
  assumes "isApplyingRemoteChange h" and "\<forall>i. ev \<noteq> TimeoutFires i"
  shows "isApplyingRemoteChange (ws_step v r ip h (now, ev)) \<and>
         sent (ws_step v r ip h (now, ev)) = sent h"
proof (cases ev)
  case UserConnect
  then show ?thesis using assms by (simp add: ws_step_def ws_connect_flag_sent)
next
  case UserDisconnect
  then show ?thesis using assms by (simp add: ws_step_def ws_disconnect_flag_sent)
next
  case (LocalSend act time)
  then show ?thesis using assms by (simp add: ws_step_def sendSyncEvent_suppressed)
next
  case (SockOpen s)
  then show ?thesis using assms by (simp add: ws_step_def ws_onopen_flag_sent)
next
  case (SockMessage s msg)
  then show ?thesis using assms by (simp add: ws_step_def ws_onmessage_flag_sent)
next
  case (SockError s)
  then show ?thesis using assms by (simp add: ws_step_def ws_onerror_def)
next
  case (SockClose s)
  then show ?thesis using assms by (simp add: ws_step_def ws_onclose_flag_sent)
next
  case (TimeoutFires i)
  then show ?thesis using assms by simp
qed

lemma ws_steps_keep_flag:
  assumes "isApplyingRemoteChange h" and "\<forall>e \<in> set evs. \<forall>i. snd e \<noteq> TimeoutFires i"
  shows "isApplyingRemoteChange (foldl (ws_step v r ip) h evs) \<and>
         sent (foldl (ws_step v r ip) h evs) = sent h"
  using assms
proof (induction evs arbitrary: h)
  case Nil
  then show ?case by simp
next
  case (Cons e evs)
  obtain now ev where e: "e = (now, ev)" by (cases e)
  from Cons.prems have ne: "\<forall>i. ev \<noteq> TimeoutFires i" by (simp add: e)
  have st: "isApplyingRemoteChange (ws_step v r ip h (now, ev)) \<and>
            sent (ws_step v r ip h (now, ev)) = sent h"
    using Cons.prems(1) ne by (rule ws_step_keeps_flag)
  have "isApplyingRemoteChange (foldl (ws_step v r ip) (ws_step v r ip h (now, ev)) evs) \<and>
        sent (foldl (ws_step v r ip) (ws_step v r ip h (now, ev)) evs) =
          sent (ws_step v r ip h (now, ev))"
    using st Cons.prems(2) by (intro Cons.IH) simp_all
  then show ?case using st by (simp add: e)
qed

lemma fire_clear_timeout:
  assumes "find (\<lambda>t. timeout_id t = i) (timeouts h) = Some t"
    and "cb t = ClearApplyingRemoteChange"
  shows "fire_timeout v now i h =
           (if due t \<le> now then (clear_timeout i h)\<lparr>isApplyingRemoteChange := False\<rparr> else h)"
  using assms by (simp add: fire_timeout_def run_timeout_cb_def)

lemma ws_onclose_dial_out:
  assumes "sock_role h s = Some Client" and "sock_hostIp h s \<noteq> []"
  shows "timeouts (ws_onclose now s h) =
           timeouts h @ [\<lparr>timeout_id = next_timeout h, due = now + 3000,
                          cb = Reconnect (Some Client) (sock_hostIp h s)\<rparr>] \<and>
         reconnectTimeoutRef (ws_onclose now s h) = Some (next_timeout h)"
  using assms by (simp add: ws_onclose_def set_timeout_def Let_def)

lemma ws_onclose_other_role:
  assumes "sock_role h s \<noteq> Some Client \<or> sock_hostIp h s = []"
  shows "timeouts (ws_onclose now s h) = timeouts h \<and>
         reconnectTimeoutRef (ws_onclose now s h) = reconnectTimeoutRef h"
  using assms by (auto simp: ws_onclose_def Let_def)

lemma ws_disconnect_cancels:
  assumes "reconnectTimeoutRef h = Some i"
  shows "\<forall>t \<in> set (timeouts (ws_disconnect h)). timeout_id t \<noteq> i"
    and "reconnectTimeoutRef (ws_disconnect h) = None"
  using assms
  by (simp_all add: ws_disconnect_def sock_close_def clear_timeout_def Let_def split: option.splits)

lemma ws_inv_init: "ws_inv ws_init"
  by (simp add: ws_inv_def ws_init_def)

lemma ws_connect_timeouts:
  "timeouts (ws_connect v r ip h) = timeouts h"
  "next_timeout (ws_connect v r ip h) = next_timeout h"
  "reconnectTimeoutRef (ws_connect v r ip h) = reconnectTimeoutRef h"
  by (simp_all add: ws_connect_def Let_def split: option.splits)

lemma ws_disconnect_timeouts:
  "timeouts (ws_disconnect h) =
     (case reconnectTimeoutRef h of None \<Rightarrow> timeouts h
      | Some i \<Rightarrow> filter (\<lambda>t. timeout_id t \<noteq> i) (timeouts h))"
  "next_timeout (ws_disconnect h) = next_timeout h"
  "reconnectTimeoutRef (ws_disconnect h) = None"
  by (simp_all add: ws_disconnect_def sock_close_def clear_timeout_def Let_def split: option.splits)

lemma ws_onopen_timeouts:
  "timeouts (ws_onopen s h) =
     (case reconnectTimeoutRef h of None \<Rightarrow> timeouts h
      | Some i \<Rightarrow> filter (\<lambda>t. timeout_id t \<noteq> i) (timeouts h))"
  "next_timeout (ws_onopen s h) = next_timeout h"
  "reconnectTimeoutRef (ws_onopen s h) = None"
  by (simp_all add: ws_onopen_def clear_timeout_def Let_def split: option.splits)

lemma ws_onmessage_timeouts:
  "timeouts (snd (ws_onmessage now msg h)) =
     (case msg of
        MsgAction act time ts \<Rightarrow>
          timeouts h @ [\<lparr>timeout_id = next_timeout h, due = now + 100, cb = ClearApplyingRemoteChange\<rparr>]
      | _ \<Rightarrow> timeouts h)"
  "next_timeout (snd (ws_onmessage now msg h)) =
     (case msg of MsgAction act time ts \<Rightarrow> Suc (next_timeout h) | _ \<Rightarrow> next_timeout h)"
  "reconnectTimeoutRef (snd (ws_onmessage now msg h)) = reconnectTimeoutRef h"
  by (cases msg; simp add: ws_onmessage_def set_timeout_def)+

lemma ws_onclose_timeouts:
  "timeouts (ws_onclose now s h) =
     (if sock_role h s = Some Client \<and> sock_hostIp h s \<noteq> []
      then timeouts h @ [\<lparr>timeout_id = next_timeout h, due = now + 3000,
                            cb = Reconnect (sock_role h s) (sock_hostIp h s)\<rparr>]
      else timeouts h)"
  "next_timeout (ws_onclose now s h) =
     (if sock_role h s = Some Client \<and> sock_hostIp h s \<noteq> []
      then Suc (next_timeout h) else next_timeout h)"
  "reconnectTimeoutRef (ws_onclose now s h) =
     (if sock_role h s = Some Client \<and> sock_hostIp h s \<noteq> []
      then Some (next_timeout h) else reconnectTimeoutRef h)"
  by (simp_all add: ws_onclose_def set_timeout_def Let_def)

lemma fire_timeout_timeouts:
  "timeouts (fire_timeout v now i h) = timeouts h \<or>
   timeouts (fire_timeout v now i h) = filter (\<lambda>t. timeout_id t \<noteq> i) (timeouts h)"
  "next_timeout (fire_timeout v now i h) = next_timeout h"
  "reconnectTimeoutRef (fire_timeout v now i h) = reconnectTimeoutRef h"
  by (auto simp: fire_timeout_def run_timeout_cb_def clear_timeout_def ws_connect_timeouts
      split: option.splits timeout_cb.splits)

lemma sendSyncEvent_timeouts:
  "timeouts (sendSyncEvent act time now h) = timeouts h"
  "next_timeout (sendSyncEvent act time now h) = next_timeout h"
  "reconnectTimeoutRef (sendSyncEvent act time now h) = reconnectTimeoutRef h"
  by (simp_all add: sendSyncEvent_def split: option.splits)

lemma ws_step_inv:
  assumes "ws_inv h"
  shows "ws_inv (ws_step v r ip h (now, ev))"
proof (cases ev)
  case UserConnect
  then show ?thesis using assms by (simp add: ws_step_def ws_inv_def ws_connect_timeouts)
next
  case UserDisconnect
  then show ?thesis using assms
    by (auto simp: ws_step_def ws_inv_def ws_disconnect_timeouts split: option.splits)
next
  case (LocalSend act time)
  then show ?thesis using assms by (simp add: ws_step_def ws_inv_def sendSyncEvent_timeouts)
next
  case (SockOpen s)
  then show ?thesis using assms
    by (auto simp: ws_step_def ws_inv_def ws_onopen_timeouts split: option.splits)
next
  case (SockMessage s msg)
  then show ?thesis using assms
    by (cases msg) (auto simp: ws_step_def ws_inv_def ws_onmessage_timeouts less_Suc_eq)
next
  case (SockError s)
  then show ?thesis using assms by (simp add: ws_step_def ws_inv_def ws_onerror_def)
next
  case (SockClose s)
  then show ?thesis using assms
    by (auto simp: ws_step_def ws_inv_def ws_onclose_timeouts less_Suc_eq)
next
  case (TimeoutFires i)
  then show ?thesis using assms fire_timeout_timeouts(1) [of v now i h]
    by (auto simp: ws_step_def ws_inv_def fire_timeout_timeouts(2,3))
qed

lemma foldl_ws_step_inv: "ws_inv h \<Longrightarrow> ws_inv (foldl (ws_step v r ip) h evs)"
proof (induction evs arbitrary: h)
  case Nil
  then show ?case by simp
next
  case (Cons e evs)
  obtain now ev where e: "e = (now, ev)" by (cases e)
  have "ws_inv (ws_step v r ip h (now, ev))" using Cons.prems by (rule ws_step_inv)
  then show ?case using Cons.IH by (simp add: e)
qed

lemma ws_run_inv: "ws_inv (ws_run v r ip evs)"
  by (simp add: ws_run_def foldl_ws_step_inv ws_inv_init)

lemma reset_stays_pending:
  assumes "ws_inv h" and "t \<in> set (timeouts h)" and "cb t = ClearApplyingRemoteChange"
    and "ev \<noteq> TimeoutFires (timeout_id t)"
  shows "t \<in> set (timeouts (ws_step v r ip h (now, ev)))"
proof (cases ev)
  case UserConnect
  then show ?thesis using assms by (simp add: ws_step_def ws_connect_timeouts)
next
  case UserDisconnect
  then show ?thesis using assms
    by (auto simp: ws_step_def ws_inv_def ws_disconnect_timeouts split: option.splits)
next
  case (LocalSend act time)
  then show ?thesis using assms by (simp add: ws_step_def sendSyncEvent_timeouts)
next
  case (SockOpen s)
  then show ?thesis using assms
    by (auto simp: ws_step_def ws_inv_def ws_onopen_timeouts split: option.splits)
next
  case (SockMessage s msg)
  then show ?thesis using assms
    by (cases msg) (auto simp: ws_step_def ws_onmessage_timeouts)
next
  case (SockError s)
  then show ?thesis using assms by (simp add: ws_step_def ws_onerror_def)
next
  case (SockClose s)
  then show ?thesis using assms
    by (auto simp: ws_step_def ws_onclose_timeouts)
next
  case (TimeoutFires i)
  with assms(4) have "i \<noteq> timeout_id t" by auto
  then show ?thesis using TimeoutFires assms(2) fire_timeout_timeouts(1) [of v now i h]
    by (auto simp: ws_step_def)
qed

lemma reset_stays_pending_steps:
  assumes "ws_inv h" and "t \<in> set (timeouts h)" and "cb t = ClearApplyingRemoteChange"
    and "\<forall>e \<in> set evs. snd e \<noteq> TimeoutFires (timeout_id t)"
  shows "t \<in> set (timeouts (foldl (ws_step v r ip) h evs))"
  using assms
proof (induction evs arbitrary: h)
  case Nil
  then show ?case by simp
next
  case (Cons e evs)
  obtain now ev where e: "e = (now, ev)" by (cases e)
  from Cons.prems(4) have ne: "ev \<noteq> TimeoutFires (timeout_id t)" by (simp add: e)
  have i: "ws_inv (ws_step v r ip h (now, ev))" using Cons.prems(1) by (rule ws_step_inv)
  have m: "t \<in> set (timeouts (ws_step v r ip h (now, ev)))"
    using Cons.prems(1,2,3) ne by (rule reset_stays_pending)
  have "t \<in> set (timeouts (foldl (ws_step v r ip) (ws_step v r ip h (now, ev)) evs))"
    using i m Cons.prems(3,4) by (intro Cons.IH) simp_all
  then show ?case by (simp add: e)
qed

lemma ws_onmessage_inv:
  assumes "ws_inv h"
  shows "ws_inv (snd (ws_onmessage now msg h))"
  using assms by (cases msg) (auto simp: ws_inv_def ws_onmessage_timeouts less_Suc_eq)

lemma fire_timeout_window:
  assumes "isApplyingRemoteChange s"
    and "\<forall>t \<in> set (timeouts s). cb t = ClearApplyingRemoteChange \<longrightarrow> b \<le> due t"
    and "\<tau> < b"
  shows "isApplyingRemoteChange (fire_timeout v \<tau> i s) \<and> sent (fire_timeout v \<tau> i s) = sent s"
proof (cases "find (\<lambda>t. timeout_id t = i) (timeouts s)")
  case None
  then show ?thesis using assms(1) by (simp add: fire_timeout_def)
next
  case (Some t)
  then have mem: "t \<in> set (timeouts s)" by (auto simp: find_Some_iff)
  show ?thesis
  proof (cases "cb t")
    case ClearApplyingRemoteChange
    with mem assms(2) have "b \<le> due t" by blast
    with assms(3) have "\<not> due t \<le> \<tau>" by simp
    then show ?thesis using Some assms(1) by (simp add: fire_timeout_def)
  next
    case (Reconnect r' ip')
    then show ?thesis using Some assms(1)
      by (simp add: fire_timeout_def run_timeout_cb_def ws_connect_flag_sent clear_timeout_def)
  qed
qed

lemma ws_step_window:
  assumes "isApplyingRemoteChange s"
    and "\<forall>t \<in> set (timeouts s). cb t = ClearApplyingRemoteChange \<longrightarrow> b \<le> due t"
    and "\<tau> < b" and "b \<le> \<tau> + 100"
  shows "isApplyingRemoteChange (ws_step v r ip s (\<tau>, ev)) \<and>
         sent (ws_step v r ip s (\<tau>, ev)) = sent s \<and>
         (\<forall>t \<in> set (timeouts (ws_step v r ip s (\<tau>, ev))).
            cb t = ClearApplyingRemoteChange \<longrightarrow> b \<le> due t)"
proof (cases ev)
  case UserConnect
  then show ?thesis using assms
    by (simp add: ws_step_def ws_connect_flag_sent ws_connect_timeouts)
next
  case UserDisconnect
  then show ?thesis using assms
    by (auto simp: ws_step_def ws_disconnect_flag_sent ws_disconnect_timeouts split: option.splits)
next
  case (LocalSend act time)
  then show ?thesis using assms
    by (simp add: ws_step_def sendSyncEvent_suppressed)
next
  case (SockOpen s')
  then show ?thesis using assms
    by (auto simp: ws_step_def ws_onopen_flag_sent ws_onopen_timeouts split: option.splits)
next
  case (SockMessage s' msg)
  then show ?thesis using assms
    by (cases msg) (auto simp: ws_step_def ws_onmessage_flag_sent ws_onmessage_timeouts)
next
  case (SockError s')
  then show ?thesis using assms by (simp add: ws_step_def ws_onerror_def)
next
  case (SockClose s')
  then show ?thesis using assms
    by (auto simp: ws_step_def ws_onclose_flag_sent ws_onclose_timeouts)
next
  case (TimeoutFires i)
  have fs: "isApplyingRemoteChange (fire_timeout v \<tau> i s) \<and> sent (fire_timeout v \<tau> i s) = sent s"
    using assms(1,2,3) by (rule fire_timeout_window)
  have "\<forall>t \<in> set (timeouts (fire_timeout v \<tau> i s)). cb t = ClearApplyingRemoteChange \<longrightarrow> b \<le> due t"
    using assms(2) fire_timeout_timeouts(1) [of v \<tau> i s] by auto
  with fs TimeoutFires show ?thesis by (simp add: ws_step_def)
qed

lemma ws_steps_window:
  assumes "isApplyingRemoteChange s"
    and "\<forall>t \<in> set (timeouts s). cb t = ClearApplyingRemoteChange \<longrightarrow> b \<le> due t"
    and "\<forall>e \<in> set evs. fst e < b \<and> b \<le> fst e + 100"
  shows "isApplyingRemoteChange (foldl (ws_step v r ip) s evs) \<and>
         sent (foldl (ws_step v r ip) s evs) = sent s"
  using assms
proof (induction evs arbitrary: s)
  case Nil
  then show ?case by simp
next
  case (Cons e evs)
  obtain \<tau> ev where e: "e = (\<tau>, ev)" by (cases e)
  from Cons.prems(3) have tb: "\<tau> < b" "b \<le> \<tau> + 100" by (simp_all add: e)
  have st: "isApplyingRemoteChange (ws_step v r ip s (\<tau>, ev)) \<and>
            sent (ws_step v r ip s (\<tau>, ev)) = sent s \<and>
            (\<forall>t \<in> set (timeouts (ws_step v r ip s (\<tau>, ev))).
               cb t = ClearApplyingRemoteChange \<longrightarrow> b \<le> due t)"
    using Cons.prems(1,2) tb by (rule ws_step_window)
  have "isApplyingRemoteChange (foldl (ws_step v r ip) (ws_step v r ip s (\<tau>, ev)) evs) \<and>
        sent (foldl (ws_step v r ip) (ws_step v r ip s (\<tau>, ev)) evs) =
          sent (ws_step v r ip s (\<tau>, ev))"
    using st Cons.prems(3) by (intro Cons.IH) simp_all
  then show ?case using st by (simp add: e)
qed

section \<open>Session controller: lemmas\<close>

lemma periodic_inv_init: "periodic_inv app_init"
  by (simp add: periodic_inv_def app_init_def)

lemma periodic_clear_result:
  assumes "periodic_inv a"
  shows "intervals (periodic_clear a) = [] \<and> periodicSyncIntervalRef (periodic_clear a) = None"
  using assms
  by (auto simp: periodic_inv_def periodic_clear_def clear_interval_def split: option.splits)

lemma before_effect:
  assumes "periodic_inv a"
  shows "intervals (if sync_cleanup a then periodic_clear a else a) = [] \<and>
         periodicSyncIntervalRef (if sync_cleanup a then periodic_clear a else a) = None"
proof (cases "sync_cleanup a")
  case True
  then show ?thesis using periodic_clear_result [OF assms] by simp
next
  case False
  then show ?thesis using assms by (auto simp: periodic_inv_def)
qed

lemma before_effect_fields:
  "app_role (if sync_cleanup a then periodic_clear a else a) = app_role a"
  "isPlaying (if sync_cleanup a then periodic_clear a else a) = isPlaying a"
  "videoId (if sync_cleanup a then periodic_clear a else a) = videoId a"
  "next_interval (if sync_cleanup a then periodic_clear a else a) = next_interval a"
  by (simp_all add: periodic_clear_def clear_interval_def split: option.splits)

lemma periodic_effect_start:
  assumes "intervals a = []" and "periodicSyncIntervalRef a = None"
    and "app_role a = Some Host" and "c" and "isPlaying a" and "videoId a \<noteq> []" and "handle_isReady p"
  shows "intervals (periodic_effect c p a) = [(next_interval a, 3000)] \<and>
         periodicSyncIntervalRef (periodic_effect c p a) = Some (next_interval a) \<and>
         sync_cleanup (periodic_effect c p a)"
  using assms by (simp add: periodic_effect_def)

lemma periodic_effect_stop:
  assumes "intervals a = []" and "periodicSyncIntervalRef a = None"
    and "\<not> (app_role a = Some Host \<and> c \<and> isPlaying a \<and> videoId a \<noteq> [] \<and> handle_isReady p)"
  shows "intervals (periodic_effect c p a) = [] \<and>
         periodicSyncIntervalRef (periodic_effect c p a) = None"
  using assms by (auto simp: periodic_effect_def periodic_clear_def)

lemma app_render_changed:
  assumes "periodic_inv a" and "sync_deps a \<noteq> Some (app_role a, c, isPlaying a, videoId a)"
  shows "intervals (app_render c p a) =
           (if app_role a = Some Host \<and> c \<and> isPlaying a \<and> videoId a \<noteq> [] \<and> handle_isReady p
            then [(next_interval a, 3000)] else []) \<and>
         periodicSyncIntervalRef (app_render c p a) =
           (if app_role a = Some Host \<and> c \<and> isPlaying a \<and> videoId a \<noteq> [] \<and> handle_isReady p
            then Some (next_interval a) else None) \<and>
         sync_cleanup (app_render c p a) =
           (app_role a = Some Host \<and> c \<and> isPlaying a \<and> videoId a \<noteq> [] \<and> handle_isReady p) \<and>
         sync_deps (app_render c p a) = Some (app_role a, c, isPlaying a, videoId a)"
proof -
  let ?b = "if sync_cleanup a then periodic_clear a else a"
  have b: "intervals ?b = [] \<and> periodicSyncIntervalRef ?b = None"
    using assms(1) by (rule before_effect)
  have r: "app_render c p a = (periodic_effect c p ?b)\<lparr>sync_deps := Some (app_role a, c, isPlaying a, videoId a)\<rparr>"
    using assms(2) by (simp add: app_render_def Let_def)
  show ?thesis
  proof (cases "app_role a = Some Host \<and> c \<and> isPlaying a \<and> videoId a \<noteq> [] \<and> handle_isReady p")
    case True
    then have "intervals (periodic_effect c p ?b) = [(next_interval ?b, 3000)] \<and>
               periodicSyncIntervalRef (periodic_effect c p ?b) = Some (next_interval ?b) \<and>
               sync_cleanup (periodic_effect c p ?b)"
      using b by (intro periodic_effect_start) (simp_all add: before_effect_fields)
    then show ?thesis using True r by (simp add: before_effect_fields)
  next
    case False
    then have "\<not> (app_role ?b = Some Host \<and> c \<and> isPlaying ?b \<and> videoId ?b \<noteq> [] \<and> handle_isReady p)"
      by (simp add: before_effect_fields)
    then have "intervals (periodic_effect c p ?b) = [] \<and>
               periodicSyncIntervalRef (periodic_effect c p ?b) = None"
      using b by (intro periodic_effect_stop) simp_all
    moreover have "\<not> sync_cleanup (periodic_effect c p ?b)"
      using False by (auto simp: periodic_effect_def before_effect_fields)
    ultimately show ?thesis using False r by simp
  qed
qed

lemma app_render_unchanged:
  assumes "sync_deps a = Some (app_role a, c, isPlaying a, videoId a)"
  shows "app_render c p a = a"
  using assms by (simp add: app_render_def Let_def)

lemma app_render_inv:
  assumes "periodic_inv a"
  shows "periodic_inv (app_render c p a)"
proof (cases "sync_deps a = Some (app_role a, c, isPlaying a, videoId a)")
  case True
  then show ?thesis using assms by (simp add: app_render_unchanged)
next
  case False
  from app_render_changed [OF assms False, of p]
  show ?thesis by (auto simp: periodic_inv_def)
qed

lemma app_render_deps:
  "\<exists>c'. sync_deps (app_render c p a) = Some (app_role (app_render c p a), c',
           isPlaying (app_render c p a), videoId (app_render c p a))"
proof (cases "sync_deps a = Some (app_role a, c, isPlaying a, videoId a)")
  case True
  then show ?thesis by (auto simp: app_render_unchanged)
next
  case False
  then show ?thesis
    by (auto simp: app_render_def Let_def periodic_effect_def periodic_clear_def
        clear_interval_def split: option.splits)
qed

lemma set_state_inv:
  assumes "periodic_inv a"
  shows "periodic_inv (a\<lparr>app_role := r, hostIp := ip, videoId := v, videoIdInput := vi, isPlaying := pl\<rparr>)"
  using assms by (simp add: periodic_inv_def)

lemma app_step_inv: "periodic_inv a \<Longrightarrow> periodic_inv (app_step a u)"
  by (simp add: app_step_def app_render_inv set_state_inv)

lemma foldl_app_step_inv: "periodic_inv a \<Longrightarrow> periodic_inv (foldl app_step a us)"
  by (induction us arbitrary: a) (simp_all add: app_step_inv)

lemma app_run_inv: "periodic_inv (app_run c0 p0 us)"
  by (simp add: app_run_def foldl_app_step_inv app_render_inv periodic_inv_init)

lemma app_run_deps:
  "\<exists>c'. sync_deps (app_run c0 p0 us) = Some (app_role (app_run c0 p0 us), c',
           isPlaying (app_run c0 p0 us), videoId (app_run c0 p0 us))"
proof (cases us rule: rev_cases)
  case Nil
  then show ?thesis using app_render_deps [of c0 p0 app_init] by (simp add: app_run_def)
next
  case (snoc vs u)
  then show ?thesis
    using app_render_deps by (simp add: app_run_def app_step_def)
qed

lemma inv_at_most_one: "periodic_inv a \<Longrightarrow> length (intervals a) \<le> 1"
  by (auto simp: periodic_inv_def split: option.splits)

lemma inv_running_conditions:
  assumes "periodic_inv a" and "intervals a \<noteq> []"
    and "sync_deps a = Some (app_role a, c, isPlaying a, videoId a)"
  shows "app_role a = Some Host \<and> c \<and> isPlaying a \<and> videoId a \<noteq> []"
  using assms by (auto simp: periodic_inv_def split: option.splits)

lemma app_unmount_clears: "periodic_inv a \<Longrightarrow> intervals (app_unmount a) = []"
  using before_effect [of a] by (simp add: app_unmount_def)

lemma periodic_tick_sends:
  "sent (periodic_tick now p h) =
     (case p of
        None \<Rightarrow> sent h
      | Some pl \<Rightarrow>
          if isReady pl \<and> handle_getPlayerState pl = 1 \<and> \<not> isApplyingRemoteChange h \<and>
             (\<exists>s. wsRef h = Some s \<and> sock_ready h s = OPEN)
          then sent h @ [(the (wsRef h), SyncEventMsg SEEK (handle_getCurrentTime pl) now)]
          else sent h)"
  by (auto simp: periodic_tick_def sendSyncEvent_def Let_def split: option.splits)

lemma periodic_tick_not_ready: "\<not> handle_isReady p \<Longrightarrow> periodic_tick now p h = h"
  by (auto simp: periodic_tick_def handle_isReady_def split: option.splits)

lemma periodic_tick_no_player: "\<not> hasPlayer pl \<Longrightarrow> periodic_tick now (Some pl) h = h"
  by (simp add: periodic_tick_def handle_getPlayerState_def Let_def)

lemma app_render_videoId: "videoId (app_render c p a) = videoId a"
  by (simp add: app_render_def Let_def periodic_effect_def periodic_clear_def clear_interval_def
      split: option.splits)

lemma app_step_videoId: "videoId (app_step a u) = new_videoId u"
  by (simp add: app_step_def app_render_videoId)

lemma app_step_deps:
  "\<exists>c'. sync_deps (app_step a u) = Some (app_role (app_step a u), c',
           isPlaying (app_step a u), videoId (app_step a u))"
  unfolding app_step_def by (rule app_render_deps)

lemma last_handle_Cons: "last_handle p (u # us) = last_handle (now_player u) us"
  by (simp add: last_handle_def)

lemma app_step_running_ready:
  assumes inv: "periodic_inv a"
    and deps: "sync_deps a = Some (app_role a, c, isPlaying a, videoId a)"
    and run: "intervals a \<noteq> [] \<longrightarrow> handle_isReady p"
    and stay: "handle_isReady p \<and> videoId a \<noteq> [] \<and> new_videoId u \<noteq> [] \<longrightarrow> handle_isReady (now_player u)"
  shows "intervals (app_step a u) \<noteq> [] \<longrightarrow> handle_isReady (now_player u)"
proof
  let ?B = "a\<lparr>app_role := new_role u, hostIp := new_hostIp u, videoId := new_videoId u,
              videoIdInput := new_videoIdInput u, isPlaying := new_isPlaying u\<rparr>"
  assume ne: "intervals (app_step a u) \<noteq> []"
  have invB: "periodic_inv ?B" using inv by (rule set_state_inv)
  have step: "app_step a u = app_render (now_connected u) (now_player u) ?B"
    by (simp add: app_step_def)
  show "handle_isReady (now_player u)"
  proof (cases "sync_deps ?B = Some (app_role ?B, now_connected u, isPlaying ?B, videoId ?B)")
    case True
    then have same: "app_step a u = ?B" by (simp add: step app_render_unchanged)
    with ne have nea: "intervals a \<noteq> []" by simp
    with run have rp: "handle_isReady p" by simp
    from True deps have v: "videoId a = new_videoId u" by simp
    from inv nea deps have "videoId a \<noteq> []"
      using inv_running_conditions [of a c] by blast
    with rp v stay show ?thesis by simp
  next
    case False
    from app_render_changed [OF invB False, of "now_player u"] ne
    show ?thesis by (simp add: step split: if_splits)
  qed
qed

lemma foldl_running_ready:
  assumes "periodic_inv a"
    and "\<exists>c. sync_deps a = Some (app_role a, c, isPlaying a, videoId a)"
    and "intervals a \<noteq> [] \<longrightarrow> handle_isReady p"
    and "handle_lifecycle p (videoId a) us"
  shows "intervals (foldl app_step a us) \<noteq> [] \<longrightarrow> handle_isReady (last_handle p us)"
  using assms
proof (induction us arbitrary: a p)
  case Nil
  then show ?case by (simp add: last_handle_def)
next
  case (Cons u us)
  from Cons.prems(2) obtain c where d: "sync_deps a = Some (app_role a, c, isPlaying a, videoId a)"
    by blast
  from Cons.prems(4) have stay:
    "handle_isReady p \<and> videoId a \<noteq> [] \<and> new_videoId u \<noteq> [] \<longrightarrow> handle_isReady (now_player u)"
    and rest: "handle_lifecycle (now_player u) (new_videoId u) us"
    by simp_all
  have r1: "intervals (app_step a u) \<noteq> [] \<longrightarrow> handle_isReady (now_player u)"
    using Cons.prems(1) d Cons.prems(3) stay by (rule app_step_running_ready)
  have i1: "periodic_inv (app_step a u)" using Cons.prems(1) by (rule app_step_inv)
  have l1: "handle_lifecycle (now_player u) (videoId (app_step a u)) us"
    using rest by (simp add: app_step_videoId)
  have "intervals (foldl app_step (app_step a u) us) \<noteq> [] \<longrightarrow>
          handle_isReady (last_handle (now_player u) us)"
    using i1 app_step_deps r1 l1 by (rule Cons.IH)
  then show ?case by (simp add: last_handle_Cons)
qed

lemma app_run_running_ready:
  assumes "handle_lifecycle p0 [] us"
  shows "intervals (app_run c0 p0 us) \<noteq> [] \<longrightarrow> handle_isReady (last_handle p0 us)"
proof -
  let ?a = "app_render c0 p0 app_init"
  have i: "periodic_inv ?a" using periodic_inv_init by (rule app_render_inv)
  have d: "\<exists>c. sync_deps ?a = Some (app_role ?a, c, isPlaying ?a, videoId ?a)"
    by (rule app_render_deps)
  have v: "videoId ?a = []" by (simp add: app_render_videoId app_init_def)
  have n: "intervals ?a \<noteq> [] \<longrightarrow> handle_isReady p0"
    by (simp add: app_render_def app_init_def periodic_effect_def periodic_clear_def)
  have l: "handle_lifecycle p0 (videoId ?a) us" using assms v by simp
  from foldl_running_ready [OF i d n l] show ?thesis by (simp add: app_run_def)
qed

lemma handle_lifecycle_last:
  assumes "handle_lifecycle p v us" and "us \<noteq> []"
  shows "handle_isReady (last_handle p us) \<longrightarrow> handle_has_player (last_handle p us)"
  using assms
proof (induction us arbitrary: p v)
  case Nil
  then show ?case by simp
next
  case (Cons u us)
  show ?case
  proof (cases "us = []")
    case True
    with Cons.prems(1) show ?thesis by (simp add: last_handle_def)
  next
    case False
    from Cons.prems(1) have "handle_lifecycle (now_player u) (new_videoId u) us" by simp
    from Cons.IH [OF this False] show ?thesis by (simp add: last_handle_Cons)
  qed
qed

lemma app_run_Nil_intervals: "intervals (app_run c0 p0 []) = []"
  by (simp add: app_run_def app_render_def app_init_def periodic_effect_def periodic_clear_def)

lemma periodic_tick_no_backend:
  assumes "\<not> handle_isReady popt \<or> \<not> handle_has_player popt"
  shows "periodic_tick now popt h = h"
proof (cases popt)
  case None
  then show ?thesis by (simp add: periodic_tick_def)
next
  case (Some pl)
  with assms have "\<not> isReady pl \<or> \<not> hasPlayer pl"
    by (simp add: handle_isReady_def handle_has_player_def)
  then show ?thesis
  proof
    assume "\<not> isReady pl"
    then show ?thesis using Some by (simp add: periodic_tick_def)
  next
    assume "\<not> hasPlayer pl"
    then show ?thesis using Some by (simp add: periodic_tick_no_player)
  qed
qed

section \<open>Relay: the claims\<close>

text \<open>
  Claim C1. Let the relay, with a registry built by any sequence of connects, closes and
  errors, receive from the connection \<open>ws\<close> a Session Load or a Playback Action: a message
  that it takes as one of the two and whose video id, respectively position, can be written
  into the relay's log line, as every string and every number can. Then every connection
  \<open>d\<close> gets exactly one message if it is registered, is not \<open>ws\<close> and is OPEN, and none
  otherwise; in particular \<open>ws\<close> gets none. What the \<open>i\<close>-th recipient gets is the relay's
  copy of the message: the video id, or the action and the time, as \<^verbatim>\<open>JSON.stringify\<close>
  writes what was received, and as timestamp the relay's clock as read for that send.
\<close>

theorem C1_broadcast_exactly_once:
  assumes "is_load_video data \<or> is_playback_action data"
    and "template_ok (if is_load_video data then field data ''videoId'' else field data ''time'')"
  shows "(\<forall>d. copies_to d (on_message (registry_after evs) rs ws (Parsed data) clock) =
               (if d \<in> set (registry_after evs) \<and> d \<noteq> ws \<and> rs d = OPEN then 1 else 0)) \<and>
         copies_to ws (on_message (registry_after evs) rs ws (Parsed data) clock) = 0 \<and>
         sends (on_message (registry_after evs) rs ws (Parsed data) clock) =
           map (\<lambda>(i, c). (c, relay_copy data (clock i)))
               (enumerate 0 (recipients (registry_after evs) rs ws)) \<and>
         (\<forall>t. field (relay_copy data t) ''timestamp'' = Some (JNum t) \<and>
              (if is_load_video data
               then field (relay_copy data t) ''type'' = Some (JStr ''LOAD_VIDEO'') \<and>
                    field (relay_copy data t) ''videoId'' =
                      map_option stringified (field data ''videoId'')
               else field (relay_copy data t) ''action'' = field data ''action'' \<and>
                    field (relay_copy data t) ''time'' =
                      map_option stringified (field data ''time'')))"
proof -
  have acc: "relay_accepts data" using assms by (auto simp: relay_accepts_def)
  have d: "distinct (registry_after evs)" by (rule registry_after_distinct)
  have z: "copies_to ws (on_message (registry_after evs) rs ws (Parsed data) clock) = 0"
    using copies_to_accepted [OF acc d, of ws] by simp
  have a: "field (relay_copy data t) ''action'' = field data ''action''"
    if "\<not> is_load_video data" for t
  proof -
    from that assms(1) have "is_playback_action data" by simp
    then have "map_option stringified (field data ''action'') = field data ''action''"
      by (auto simp: is_playback_action_def)
    with that show ?thesis by (simp add: relay_copy_action_fields)
  qed
  show ?thesis
    using z a copies_to_accepted [OF acc d] on_message_accepted_sends [OF acc]
    by (simp add: relay_copy_timestamp relay_copy_load_fields relay_copy_action_fields)
qed

theorem C1_broadcast_exactly_once_witness:
  "is_playback_action (JObj [(''action'', JStr ''PLAY''), (''time'', JNum 12), (''timestamp'', JNum 7)]) \<and>
   template_ok (field (JObj [(''action'', JStr ''PLAY''), (''time'', JNum 12), (''timestamp'', JNum 7)])
                  ''time'') \<and>
   sends (on_message (registry_after [Connect 1, Connect 2, Connect 3, Close 3, Connect 4])
            (\<lambda>c. if c = 4 then CLOSING else OPEN) 1
            (Parsed (JObj [(''action'', JStr ''PLAY''), (''time'', JNum 12), (''timestamp'', JNum 7)]))
            (\<lambda>k. 1000 + real k)) =
     [(2, JObj [(''action'', JStr ''PLAY''), (''time'', JNum 12), (''timestamp'', JNum 1000)])]"
  using C1_broadcast_exactly_once
    [of "JObj [(''action'', JStr ''PLAY''), (''time'', JNum 12), (''timestamp'', JNum 7)]"
        "[Connect 1, Connect 2, Connect 3, Close 3, Connect 4]"
        "\<lambda>c. if c = 4 then CLOSING else OPEN" 1 "\<lambda>k. 1000 + real k"]
  by (simp add: is_playback_action_def is_load_video_def registry_after_def set_add_def
      set_delete_def recipients_def relay_copy_def action_msg_def opt_prop_def template_ok_def
      enumerate_eq_zip)

text \<open>
  Claim C10. A message whose \<open>type\<close> is \<^verbatim>\<open>LOAD_VIDEO\<close> is broadcast as a Session Load and as
  nothing else, whether or not it also carries a valid \<open>action\<close>: what is sent are the
  Session Load copies (none at all when the video id cannot be written into the log line
  and the handler ends in its \<^verbatim>\<open>catch\<close>), no message sent is the Playback Action copy, the
  log shows no entry of the playback branch, and the one pass over the registry sends at
  most one message per registered connection.
\<close>

theorem C10_load_video_precedence:
  assumes "is_load_video data"
  shows "sends (on_message cs rs ws (Parsed data) clock) =
           (if template_ok (field data ''videoId'')
            then map (\<lambda>(i, c). (c, load_video_msg data (clock i))) (enumerate 0 (recipients cs rs ws))
            else []) \<and>
         (\<forall>p \<in> set (sends (on_message cs rs ws (Parsed data) clock)). \<forall>t. snd p \<noteq> action_msg data t) \<and>
         (\<forall>x y. LogBroadcastingAction x y \<notin> set (logs (on_message cs rs ws (Parsed data) clock))) \<and>
         length (sends (on_message cs rs ws (Parsed data) clock)) \<le> length cs \<and>
         (distinct cs \<longrightarrow> (\<forall>d. copies_to d (on_message cs rs ws (Parsed data) clock) \<le> 1))"
proof -
  have g: "\<forall>x y. LogBroadcastingAction x y \<notin> set (logs (on_message cs rs ws (Parsed data) clock))"
    using assms by (rule on_message_load_logs)
  show ?thesis
  proof (cases "template_ok (field data ''videoId'')")
    case True
    have s: "sends (on_message cs rs ws (Parsed data) clock) =
               map (\<lambda>(i, c). (c, load_video_msg data (clock i))) (enumerate 0 (recipients cs rs ws))"
      using assms True by (rule on_message_load_sends)
    have acc: "relay_accepts data" using assms True by (simp add: relay_accepts_def)
    have n: "\<forall>p \<in> set (sends (on_message cs rs ws (Parsed data) clock)). \<forall>t. snd p \<noteq> action_msg data t"
      unfolding s by (auto simp: load_msg_not_action_msg)
    have l: "length (sends (on_message cs rs ws (Parsed data) clock)) \<le> length cs"
      unfolding s by (simp add: length_recipients)
    have c: "distinct cs \<longrightarrow> (\<forall>d. copies_to d (on_message cs rs ws (Parsed data) clock) \<le> 1)"
      using acc by (simp add: copies_to_accepted)
    from s n g l c True show ?thesis by simp
  next
    case False
    then have "on_message cs rs ws (Parsed data) clock = \<lparr>sends = [], logs = [LogErrorParsing]\<rparr>"
      using assms by (simp add: on_message_load_throws)
    with False show ?thesis by (simp add: copies_to_def)
  qed
qed

theorem C10_load_video_precedence_witness:
  "is_load_video (JObj [(''type'', JStr ''LOAD_VIDEO''), (''videoId'', JStr ''abc''),
                        (''action'', JStr ''PLAY''), (''time'', JNum 3)]) \<and>
   is_playback_action (JObj [(''type'', JStr ''LOAD_VIDEO''), (''videoId'', JStr ''abc''),
                             (''action'', JStr ''PLAY''), (''time'', JNum 3)]) \<and>
   distinct [1, 2, 3 :: nat] \<and>
   sends (on_message [1, 2, 3] (\<lambda>_. OPEN) 2
            (Parsed (JObj [(''type'', JStr ''LOAD_VIDEO''), (''videoId'', JStr ''abc''),
                           (''action'', JStr ''PLAY''), (''time'', JNum 3)]))
            (\<lambda>_. 50)) =
     [(1, JObj [(''type'', JStr ''LOAD_VIDEO''), (''videoId'', JStr ''abc''), (''timestamp'', JNum 50)]),
      (3, JObj [(''type'', JStr ''LOAD_VIDEO''), (''videoId'', JStr ''abc''), (''timestamp'', JNum 50)])] \<and>
   is_load_video (JObj [(''type'', JStr ''LOAD_VIDEO''),
                        (''videoId'', JArr [JObj [(''toString'', JNull)]]),
                        (''action'', JStr ''PLAY''), (''time'', JNum 3)]) \<and>
   on_message [1, 2, 3] (\<lambda>_. OPEN) 2
     (Parsed (JObj [(''type'', JStr ''LOAD_VIDEO''),
                    (''videoId'', JArr [JObj [(''toString'', JNull)]]),
                    (''action'', JStr ''PLAY''), (''time'', JNum 3)]))
     (\<lambda>_. 50) = \<lparr>sends = [], logs = [LogErrorParsing]\<rparr>"
  using C10_load_video_precedence
    [of "JObj [(''type'', JStr ''LOAD_VIDEO''), (''videoId'', JStr ''abc''),
               (''action'', JStr ''PLAY''), (''time'', JNum 3)]"
        "[1, 2, 3]" "\<lambda>_. OPEN" 2 "\<lambda>_. 50"]
    C10_load_video_precedence
    [of "JObj [(''type'', JStr ''LOAD_VIDEO''),
               (''videoId'', JArr [JObj [(''toString'', JNull)]]),
               (''action'', JStr ''PLAY''), (''time'', JNum 3)]"
        "[1, 2, 3]" "\<lambda>_. OPEN" 2 "\<lambda>_. 50"]
  by (simp add: is_playback_action_def is_load_video_def recipients_def load_video_msg_def
      opt_prop_def template_ok_def on_message_def enumerate_eq_zip)

text \<open>
  Claim C8, as stated, fails: the relay applies no schema to the position. A SEEK whose
  position is negative is not one of the wire shapes of the specification, and the relay
  broadcasts it; a PLAY with no position likewise. And a parsed message of an unrecognized
  shape is dropped without a log entry.
\<close>

theorem C8_schema_not_checked:
  "\<not> spec_wire_shape (JObj [(''action'', JStr ''SEEK''), (''time'', JNum (- 5))]) \<and>
   sends (on_message [1, 2] (\<lambda>_. OPEN) 1
            (Parsed (JObj [(''action'', JStr ''SEEK''), (''time'', JNum (- 5))])) (\<lambda>_. 1000)) =
     [(2, JObj [(''action'', JStr ''SEEK''), (''time'', JNum (- 5)), (''timestamp'', JNum 1000)])] \<and>
   \<not> spec_wire_shape (JObj [(''action'', JStr ''PLAY'')]) \<and>
   sends (on_message [1, 2] (\<lambda>_. OPEN) 1 (Parsed (JObj [(''action'', JStr ''PLAY'')])) (\<lambda>_. 1000)) =
     [(2, JObj [(''action'', JStr ''PLAY''), (''timestamp'', JNum 1000)])] \<and>
   on_message [1, 2] (\<lambda>_. OPEN) 1 (Parsed (JObj [(''hello'', JNum 1)])) (\<lambda>_. 1000) =
     \<lparr>sends = [], logs = []\<rparr>"
  by (simp add: spec_wire_shape_def is_load_video_def is_playback_action_def on_message_def
      action_msg_def opt_prop_def template_ok_def)

text \<open>
  Claim C8, amended. The relay begins a broadcast exactly for a parsed message that it
  accepts: one whose \<open>type\<close> is \<^verbatim>\<open>LOAD_VIDEO\<close> and whose video id can be written into the
  log line, or one of another \<open>type\<close> whose \<open>action\<close> is PLAY, PAUSE or SEEK and whose time
  can be written into the log line. It then sends the stamped copies to the recipients;
  beyond that the position and the video id are not examined. Every other message sends
  nothing: a text that does not parse, the value \<^verbatim>\<open>null\<close>, and a message of a recognized
  kind whose id or time has no string form end in the \<^verbatim>\<open>catch\<close> and are logged; any other
  parsed message logs nothing. Nothing is ever sent to the sender.
\<close>

theorem C8_broadcast_iff_recognized:
  "(sends (on_message cs rs ws msg clock) \<noteq> [] \<longleftrightarrow>
      (\<exists>data. msg = Parsed data \<and> relay_accepts data) \<and> recipients cs rs ws \<noteq> []) \<and>
   (\<forall>data. relay_accepts data \<longleftrightarrow>
      is_load_video data \<and> template_ok (field data ''videoId'') \<or>
      \<not> is_load_video data \<and> is_playback_action data \<and> template_ok (field data ''time'')) \<and>
   (\<forall>data. msg = Parsed data \<and> relay_accepts data \<longrightarrow>
      sends (on_message cs rs ws msg clock) =
        map (\<lambda>(i, c). (c, relay_copy data (clock i))) (enumerate 0 (recipients cs rs ws))) \<and>
   (msg = Unparsable \<longrightarrow>
      on_message cs rs ws msg clock = \<lparr>sends = [], logs = [LogErrorParsing]\<rparr>) \<and>
   (\<forall>data. msg = Parsed data \<and> \<not> relay_accepts data \<longrightarrow>
      on_message cs rs ws msg clock =
        \<lparr>sends = [],
         logs = (if data = JNull \<or> is_load_video data \<or> is_playback_action data
                 then [LogErrorParsing] else [])\<rparr>) \<and>
   (\<forall>p \<in> set (sends (on_message cs rs ws msg clock)). fst p \<noteq> ws)"
proof -
  have acc: "sends (on_message cs rs ws (Parsed data) clock) =
               map (\<lambda>(i, c). (c, relay_copy data (clock i))) (enumerate 0 (recipients cs rs ws))"
    if "relay_accepts data" for data
    using that by (rule on_message_accepted_sends)
  have rej: "on_message cs rs ws (Parsed data) clock =
               \<lparr>sends = [],
                logs = (if data = JNull \<or> is_load_video data \<or> is_playback_action data
                        then [LogErrorParsing] else [])\<rparr>"
    if "\<not> relay_accepts data" for data
    using that by (rule on_message_not_accepted)
  have unp: "msg = Unparsable \<longrightarrow>
               on_message cs rs ws msg clock = \<lparr>sends = [], logs = [LogErrorParsing]\<rparr>"
    by (auto simp: on_message_unparsable)
  have ex: "\<forall>data. relay_accepts data \<longleftrightarrow>
      is_load_video data \<and> template_ok (field data ''videoId'') \<or>
      \<not> is_load_video data \<and> is_playback_action data \<and> template_ok (field data ''time'')"
    by (simp add: relay_accepts_def)
  have iff: "sends (on_message cs rs ws msg clock) \<noteq> [] \<longleftrightarrow>
               (\<exists>data. msg = Parsed data \<and> relay_accepts data) \<and> recipients cs rs ws \<noteq> []"
  proof (cases msg)
    case Unparsable
    then show ?thesis by (simp add: on_message_unparsable)
  next
    case (Parsed data)
    show ?thesis
    proof (cases "relay_accepts data")
      case True
      then show ?thesis using Parsed acc [OF True] by (simp add: enumerate_eq_zip)
    next
      case False
      then show ?thesis using Parsed rej [OF False] by simp
    qed
  qed
  have nosender: "\<forall>p \<in> set (sends (on_message cs rs ws msg clock)). fst p \<noteq> ws"
  proof (cases msg)
    case Unparsable
    then show ?thesis by (simp add: on_message_unparsable)
  next
    case (Parsed data)
    show ?thesis
    proof (cases "relay_accepts data")
      case True
      show ?thesis unfolding Parsed acc [OF True]
      proof
        fix p
        assume "p \<in> set (map (\<lambda>(i, c). (c, relay_copy data (clock i))) (enumerate 0 (recipients cs rs ws)))"
        then show "fst p \<noteq> ws"
          by (rule stamped_not_sender [where f = "\<lambda>i. relay_copy data (clock i)"])
      qed
    next
      case False
      then show ?thesis using Parsed rej [OF False] by simp
    qed
  qed
  from iff ex acc rej unp nosender show ?thesis by blast
qed

theorem C8_broadcast_iff_recognized_witness:
  "recipients [1, 2, 3] (\<lambda>_. OPEN) 3 \<noteq> [] \<and>
   relay_accepts (JObj [(''action'', JStr ''PAUSE''), (''time'', JNum 4)]) \<and>
   sends (on_message [1, 2, 3] (\<lambda>_. OPEN) 3
            (Parsed (JObj [(''action'', JStr ''PAUSE''), (''time'', JNum 4)])) (\<lambda>_. 9)) =
     [(1, JObj [(''action'', JStr ''PAUSE''), (''time'', JNum 4), (''timestamp'', JNum 9)]),
      (2, JObj [(''action'', JStr ''PAUSE''), (''time'', JNum 4), (''timestamp'', JNum 9)])] \<and>
   on_message [1, 2, 3] (\<lambda>_. OPEN) 3 Unparsable (\<lambda>_. 9) = \<lparr>sends = [], logs = [LogErrorParsing]\<rparr> \<and>
   \<not> relay_accepts (JObj [(''action'', JStr ''STOP'')]) \<and>
   on_message [1, 2, 3] (\<lambda>_. OPEN) 3 (Parsed (JObj [(''action'', JStr ''STOP'')])) (\<lambda>_. 9) =
     \<lparr>sends = [], logs = []\<rparr> \<and>
   \<not> relay_accepts (JObj [(''action'', JStr ''PLAY''), (''time'', JObj [(''toString'', JNum 1)])]) \<and>
   on_message [1, 2, 3] (\<lambda>_. OPEN) 3
     (Parsed (JObj [(''action'', JStr ''PLAY''), (''time'', JObj [(''toString'', JNum 1)])])) (\<lambda>_. 9) =
     \<lparr>sends = [], logs = [LogErrorParsing]\<rparr>"
  using C8_broadcast_iff_recognized
          [of "[1, 2, 3]" "\<lambda>_. OPEN" 3 "Parsed (JObj [(''action'', JStr ''PAUSE''), (''time'', JNum 4)])" "\<lambda>_. 9"]
        C8_broadcast_iff_recognized [of "[1, 2, 3]" "\<lambda>_. OPEN" 3 Unparsable "\<lambda>_. 9"]
        C8_broadcast_iff_recognized
          [of "[1, 2, 3]" "\<lambda>_. OPEN" 3 "Parsed (JObj [(''action'', JStr ''STOP'')])" "\<lambda>_. 9"]
        C8_broadcast_iff_recognized
          [of "[1, 2, 3]" "\<lambda>_. OPEN" 3
              "Parsed (JObj [(''action'', JStr ''PLAY''), (''time'', JObj [(''toString'', JNum 1)])])"
              "\<lambda>_. 9"]
  by (simp add: is_playback_action_def is_load_video_def recipients_def relay_copy_def
      relay_accepts_def template_ok_def action_msg_def opt_prop_def enumerate_eq_zip)

section \<open>Player: the claims\<close>

text \<open>
  Claim C2. When \<^verbatim>\<open>syncPlayer\<close> applies a remote action on a ready player, with \<open>d\<close> the
  distance between the compensated time and the backend's position, the commands it issues
  are: a seek to the compensated time exactly when \<open>d\<close> is strictly above the threshold
  (0.4 for SEEK, 0.1 for PLAY and PAUSE), and then play for PLAY, pause for PAUSE and
  nothing for SEEK, whatever the seek decision was.
\<close>

theorem C2_seek_threshold:
  assumes "hasPlayer p" and "isReady p"
  shows "calls (syncPlayer act time ts now p) =
           calls p
           @ (if \<bar>compensated_time time ts now - currentTime p\<bar>
                   > (case act of SEEK \<Rightarrow> 4 / 10 | PLAY \<Rightarrow> 1 / 10 | PAUSE \<Rightarrow> 1 / 10)
              then [SeekTo (compensated_time time ts now) True] else [])
           @ (case act of PLAY \<Rightarrow> [PlayVideo] | PAUSE \<Rightarrow> [PauseVideo] | SEEK \<Rightarrow> [])"
  using syncPlayer_calls [OF assms, of act time ts now]
  by (cases act) (simp_all add: seek_threshold_def)

theorem C2_seek_threshold_witness:
  "hasPlayer \<lparr>hasPlayer = True, isReady = True, isSyncing = False, currentTime = 10,
              playerState = 1, calls = [], player_console = [], syncing_timeouts = [],
              video_deps = None\<rparr> \<and>
   calls (syncPlayer PAUSE (1005 / 100) None 0
            \<lparr>hasPlayer = True, isReady = True, isSyncing = False, currentTime = 10,
             playerState = 1, calls = [], player_console = [], syncing_timeouts = [],
             video_deps = None\<rparr>) = [PauseVideo] \<and>
   calls (syncPlayer PAUSE (102 / 10) None 0
            \<lparr>hasPlayer = True, isReady = True, isSyncing = False, currentTime = 10,
             playerState = 1, calls = [], player_console = [], syncing_timeouts = [],
             video_deps = None\<rparr>) = [SeekTo (102 / 10) True, PauseVideo] \<and>
   calls (syncPlayer SEEK (103 / 10) None 0
            \<lparr>hasPlayer = True, isReady = True, isSyncing = False, currentTime = 10,
             playerState = 1, calls = [], player_console = [], syncing_timeouts = [],
             video_deps = None\<rparr>) = [] \<and>
   calls (syncPlayer SEEK (105 / 10) None 0
            \<lparr>hasPlayer = True, isReady = True, isSyncing = False, currentTime = 10,
             playerState = 1, calls = [], player_console = [], syncing_timeouts = [],
             video_deps = None\<rparr>) = [SeekTo (105 / 10) True]"
  using
    C2_seek_threshold [of "\<lparr>hasPlayer = True, isReady = True, isSyncing = False, currentTime = 10,
             playerState = 1, calls = [], player_console = [], syncing_timeouts = [],
             video_deps = None\<rparr>" PAUSE "1005 / 100" None 0]
    C2_seek_threshold [of "\<lparr>hasPlayer = True, isReady = True, isSyncing = False, currentTime = 10,
             playerState = 1, calls = [], player_console = [], syncing_timeouts = [],
             video_deps = None\<rparr>" PAUSE "102 / 10" None 0]
    C2_seek_threshold [of "\<lparr>hasPlayer = True, isReady = True, isSyncing = False, currentTime = 10,
             playerState = 1, calls = [], player_console = [], syncing_timeouts = [],
             video_deps = None\<rparr>" SEEK "103 / 10" None 0]
    C2_seek_threshold [of "\<lparr>hasPlayer = True, isReady = True, isSyncing = False, currentTime = 10,
             playerState = 1, calls = [], player_console = [], syncing_timeouts = [],
             video_deps = None\<rparr>" SEEK "105 / 10" None 0]
  by (simp add: compensated_time_def truthy_number_def)



section \<open>Transport hook: the claims\<close>

text \<open>
  Claim C4, as stated, fails: the resets are never cancelled and each of them clears the one
  flag, so a reset left by an earlier receipt ends the suppression of a later one. With
  receipts at 1000 ms and 1090 ms the flag is set after the second receipt, the reset of
  the first clears it at 1100 ms, and a local send at 1110 ms, 20 ms after a receipt, goes
  out.
\<close>

theorem C4_window_cut_short:
  "isApplyingRemoteChange
     (ws_run (\<lambda>_ _. True) (Some Host) []
        [(0, UserConnect), (10, SockOpen 0), (1000, SockMessage 0 (MsgAction PLAY 5 (Some 990))),
         (1090, SockMessage 0 (MsgAction PAUSE 6 (Some 1080)))]) \<and>
   \<not> isApplyingRemoteChange
     (ws_run (\<lambda>_ _. True) (Some Host) []
        [(0, UserConnect), (10, SockOpen 0), (1000, SockMessage 0 (MsgAction PLAY 5 (Some 990))),
         (1090, SockMessage 0 (MsgAction PAUSE 6 (Some 1080))), (1100, TimeoutFires 1)]) \<and>
   sent
     (ws_run (\<lambda>_ _. True) (Some Host) []
        [(0, UserConnect), (10, SockOpen 0), (1000, SockMessage 0 (MsgAction PLAY 5 (Some 990))),
         (1090, SockMessage 0 (MsgAction PAUSE 6 (Some 1080))), (1100, TimeoutFires 1),
         (1110, LocalSend PAUSE 6)]) =
     [(0, SyncEventMsg PAUSE 6 1110)]"
  by (simp add: ws_run_def ws_step_def ws_init_def ws_connect_def ws_onopen_def ws_onmessage_def
      set_timeout_def sendSyncEvent_def fire_timeout_def run_timeout_cb_def clear_timeout_def
      truthy_number_def Let_def)

text \<open>
  Claim C4, amended. Receiving a Playback Action sets the flag
  \<^verbatim>\<open>isApplyingRemoteChangeRef\<close> and schedules a reset of it 100 ms later. While the flag is
  set a local send puts nothing on the wire. A reset cannot be cancelled, does nothing
  before it is due and clears the flag when it fires; nothing else clears it. So the flag
  stays set, and nothing is sent, through every sequence of events in which no timeout
  fires; and when no reset of an earlier receipt is pending, through every sequence of
  events that lie within the 100 ms after the receipt.
\<close>

theorem C4_echo_suppression:
  "isApplyingRemoteChange (snd (ws_onmessage now (MsgAction act time ts) h)) \<and>
   timeouts (snd (ws_onmessage now (MsgAction act time ts) h)) =
     timeouts h @ [\<lparr>timeout_id = next_timeout h, due = now + 100, cb = ClearApplyingRemoteChange\<rparr>] \<and>
   (isApplyingRemoteChange h \<longrightarrow> sent (sendSyncEvent a x now' h) = sent h) \<and>
   ((\<forall>e \<in> set evs. \<forall>i. snd e \<noteq> TimeoutFires i) \<longrightarrow>
      isApplyingRemoteChange
        (foldl (ws_step v r ip) (snd (ws_onmessage now (MsgAction act time ts) h)) evs) \<and>
      sent (foldl (ws_step v r ip) (snd (ws_onmessage now (MsgAction act time ts) h)) evs) = sent h) \<and>
   (find (\<lambda>t. timeout_id t = i) (timeouts h) = Some t \<and> cb t = ClearApplyingRemoteChange \<longrightarrow>
      fire_timeout v now' i h =
        (if due t \<le> now' then (clear_timeout i h)\<lparr>isApplyingRemoteChange := False\<rparr> else h)) \<and>
   ((\<forall>e \<in> set evs. snd e \<noteq> TimeoutFires (next_timeout (ws_run v r ip evs0))) \<longrightarrow>
      \<lparr>timeout_id = next_timeout (ws_run v r ip evs0), due = now + 100,
       cb = ClearApplyingRemoteChange\<rparr>
        \<in> set (timeouts (foldl (ws_step v r ip)
                     (snd (ws_onmessage now (MsgAction act time ts) (ws_run v r ip evs0))) evs))) \<and>
   ((\<forall>t \<in> set (timeouts h). cb t \<noteq> ClearApplyingRemoteChange) \<and>
    (\<forall>e \<in> set evw. now \<le> fst e \<and> fst e < now + 100) \<longrightarrow>
      isApplyingRemoteChange
        (foldl (ws_step v r ip) (snd (ws_onmessage now (MsgAction act time ts) h)) evw) \<and>
      sent (foldl (ws_step v r ip) (snd (ws_onmessage now (MsgAction act time ts) h)) evw) = sent h)"
proof -
  let ?h = "snd (ws_onmessage now (MsgAction act time ts) h)"
  have f: "isApplyingRemoteChange ?h" by (simp add: ws_onmessage_action)
  have t: "timeouts ?h =
             timeouts h @ [\<lparr>timeout_id = next_timeout h, due = now + 100, cb = ClearApplyingRemoteChange\<rparr>]"
    by (simp add: ws_onmessage_action)
  have s: "sent ?h = sent h" by (simp add: ws_onmessage_action)
  have d: "isApplyingRemoteChange h \<longrightarrow> sent (sendSyncEvent a x now' h) = sent h"
    by (simp add: sendSyncEvent_suppressed)
  have k: "isApplyingRemoteChange (foldl (ws_step v r ip) ?h evs) \<and>
           sent (foldl (ws_step v r ip) ?h evs) = sent h"
    if "\<forall>e \<in> set evs. \<forall>i. snd e \<noteq> TimeoutFires i"
    using ws_steps_keep_flag [OF f that, of v r ip] s by simp
  have c: "find (\<lambda>t. timeout_id t = i) (timeouts h) = Some t \<and> cb t = ClearApplyingRemoteChange \<longrightarrow>
             fire_timeout v now' i h =
               (if due t \<le> now' then (clear_timeout i h)\<lparr>isApplyingRemoteChange := False\<rparr> else h)"
    by (simp add: fire_clear_timeout)
  have p: "\<lparr>timeout_id = next_timeout (ws_run v r ip evs0), due = now + 100,
            cb = ClearApplyingRemoteChange\<rparr>
             \<in> set (timeouts (foldl (ws_step v r ip)
                     (snd (ws_onmessage now (MsgAction act time ts) (ws_run v r ip evs0))) evs))"
    if ne: "\<forall>e \<in> set evs. snd e \<noteq> TimeoutFires (next_timeout (ws_run v r ip evs0))"
  proof -
    let ?H = "ws_run v r ip evs0"
    let ?t = "\<lparr>timeout_id = next_timeout ?H, due = now + 100, cb = ClearApplyingRemoteChange\<rparr>"
    have i: "ws_inv (snd (ws_onmessage now (MsgAction act time ts) ?H))"
      using ws_run_inv by (rule ws_onmessage_inv)
    have m: "?t \<in> set (timeouts (snd (ws_onmessage now (MsgAction act time ts) ?H)))"
      by (simp add: ws_onmessage_action)
    have c: "cb ?t = ClearApplyingRemoteChange" by simp
    have n: "\<forall>e \<in> set evs. snd e \<noteq> TimeoutFires (timeout_id ?t)" using ne by simp
    from i m c n show ?thesis by (rule reset_stays_pending_steps)
  qed
  have w: "isApplyingRemoteChange (foldl (ws_step v r ip) ?h evw) \<and>
           sent (foldl (ws_step v r ip) ?h evw) = sent h"
    if nc: "\<forall>t \<in> set (timeouts h). cb t \<noteq> ClearApplyingRemoteChange"
      and iw: "\<forall>e \<in> set evw. now \<le> fst e \<and> fst e < now + 100"
  proof -
    have a: "\<forall>t \<in> set (timeouts ?h). cb t = ClearApplyingRemoteChange \<longrightarrow> now + 100 \<le> due t"
      using nc by (auto simp: t)
    have b: "\<forall>e \<in> set evw. fst e < now + 100 \<and> now + 100 \<le> fst e + 100"
      using iw by auto
    from ws_steps_window [OF f a b, of v r ip] s show ?thesis by simp
  qed
  from f t d k c p w show ?thesis by blast
qed

theorem C4_echo_suppression_witness:
  "isApplyingRemoteChange
     (ws_run (\<lambda>_ _. True) (Some Host) []
        [(0, UserConnect), (10, SockOpen 0), (1000, SockMessage 0 (MsgAction PLAY 5 (Some 990)))]) \<and>
   sent (sendSyncEvent PLAY 5 1040
     (ws_run (\<lambda>_ _. True) (Some Host) []
        [(0, UserConnect), (10, SockOpen 0), (1000, SockMessage 0 (MsgAction PLAY 5 (Some 990)))])) = [] \<and>
   find (\<lambda>t. timeout_id t = 1)
     (timeouts (ws_run (\<lambda>_ _. True) (Some Host) []
        [(0, UserConnect), (10, SockOpen 0), (1000, SockMessage 0 (MsgAction PLAY 5 (Some 990)))])) =
     Some \<lparr>timeout_id = 1, due = 1100, cb = ClearApplyingRemoteChange\<rparr> \<and>
   \<not> isApplyingRemoteChange
     (fire_timeout (\<lambda>_ _. True) 1100 1
        (ws_run (\<lambda>_ _. True) (Some Host) []
        [(0, UserConnect), (10, SockOpen 0), (1000, SockMessage 0 (MsgAction PLAY 5 (Some 990)))])) \<and>
   timeouts (ws_run (\<lambda>_ _. True) (Some Host) [] [(0, UserConnect), (10, SockOpen 0)]) = [] \<and>
   sent (foldl (ws_step (\<lambda>_ _. True) (Some Host) [])
           (snd (ws_onmessage 1000 (MsgAction PLAY 5 (Some 990))
                   (ws_run (\<lambda>_ _. True) (Some Host) [] [(0, UserConnect), (10, SockOpen 0)])))
           [(1040, LocalSend PLAY 5), (1060, LocalSend SEEK 6)]) = [] \<and>
   isApplyingRemoteChange
     (foldl (ws_step (\<lambda>_ _. True) (Some Host) [])
           (snd (ws_onmessage 1000 (MsgAction PLAY 5 (Some 990))
                   (ws_run (\<lambda>_ _. True) (Some Host) [] [(0, UserConnect), (10, SockOpen 0)])))
           [(1040, LocalSend PLAY 5), (1099, TimeoutFires 1)]) \<and>
   sent (ws_run (\<lambda>_ _. True) (Some Host) []
           [(0, UserConnect), (10, SockOpen 0), (1000, SockMessage 0 (MsgAction PLAY 5 (Some 990))),
            (1040, LocalSend PLAY 5), (1100, TimeoutFires 1), (1110, LocalSend SEEK 6)]) =
     [(0, SyncEventMsg SEEK 6 1110)]"
  using C4_echo_suppression
          [of 1000 PLAY 5 "Some 990"
              "ws_run (\<lambda>_ _. True) (Some Host) [] [(0, UserConnect), (10, SockOpen 0)]"
              PLAY 5 1040 "[(1040, LocalSend PLAY 5), (1060, LocalSend SEEK 6)]"
              "\<lambda>_ _. True" "Some Host" "[]" 1
              "\<lparr>timeout_id = 1, due = 1100, cb = ClearApplyingRemoteChange\<rparr>"
              "[(0, UserConnect), (10, SockOpen 0)]"
              "[(1040, LocalSend PLAY 5), (1099, TimeoutFires 1)]"]
        C4_echo_suppression
          [of 1000 PLAY 5 "Some 990"
              "ws_run (\<lambda>_ _. True) (Some Host) []
                 [(0, UserConnect), (10, SockOpen 0), (1000, SockMessage 0 (MsgAction PLAY 5 (Some 990)))]"
              PLAY 5 1040 "[]"
              "\<lambda>_ _. True" "Some Host" "[]" 1
              "\<lparr>timeout_id = 1, due = 1100, cb = ClearApplyingRemoteChange\<rparr>"
              "[]" "[]"]
  by (simp add: ws_run_def ws_step_def ws_init_def ws_connect_def ws_onopen_def ws_onmessage_def
      set_timeout_def sendSyncEvent_def fire_timeout_def run_timeout_cb_def clear_timeout_def
      truthy_number_def Let_def)

text \<open>
  Claim C5 at a failing input. A client with the host address 10.0.0.5 connects, the socket
  opens, the user disconnects, the browser then fires the close event of the socket that
  \<^verbatim>\<open>disconnect\<close> closed, and three seconds later the timeout that \<^verbatim>\<open>onclose\<close>
  scheduled fires. After the close event a reconnect is pending although the disconnect was
  manual; after the timeout a second socket has been created and the hook is connecting.
\<close>

theorem C5_reconnect_after_manual_disconnect:
  "timeouts (ws_run (\<lambda>_ _. True) (Some Client) ''10.0.0.5''
               [(0, UserConnect), (40, SockOpen 0), (9000, UserDisconnect)]) = [] \<and>
   timeouts (ws_run (\<lambda>_ _. True) (Some Client) ''10.0.0.5''
               [(0, UserConnect), (40, SockOpen 0), (9000, UserDisconnect), (9010, SockClose 0)]) =
     [\<lparr>timeout_id = 1, due = 12010, cb = Reconnect (Some Client) ''10.0.0.5''\<rparr>] \<and>
   next_sock (ws_run (\<lambda>_ _. True) (Some Client) ''10.0.0.5''
               [(0, UserConnect), (40, SockOpen 0), (9000, UserDisconnect), (9010, SockClose 0)]) = 1 \<and>
   next_sock (ws_run (\<lambda>_ _. True) (Some Client) ''10.0.0.5''
               [(0, UserConnect), (40, SockOpen 0), (9000, UserDisconnect), (9010, SockClose 0),
                (12010, TimeoutFires 1)]) = 2 \<and>
   wsRef (ws_run (\<lambda>_ _. True) (Some Client) ''10.0.0.5''
               [(0, UserConnect), (40, SockOpen 0), (9000, UserDisconnect), (9010, SockClose 0),
                (12010, TimeoutFires 1)]) = Some 1 \<and>
   connectionStatus (ws_run (\<lambda>_ _. True) (Some Client) ''10.0.0.5''
               [(0, UserConnect), (40, SockOpen 0), (9000, UserDisconnect), (9010, SockClose 0),
                (12010, TimeoutFires 1)]) = StatusConnecting"
  by (simp add: ws_run_def ws_step_def ws_init_def ws_connect_def ws_onopen_def ws_disconnect_def
      sock_close_def ws_onclose_def set_timeout_def fire_timeout_def run_timeout_cb_def
      clear_timeout_def Let_def)

section \<open>Session controller: the claims\<close>

text \<open>
  Claim C6, as stated, fails: the tick has a guard of its own. A host that is connected,
  whose playing flag is true and whose timer is running sends no SEEK at a tick at which
  the backend reports a state other than PLAYING (here 3, buffering).
\<close>

theorem C6_tick_needs_backend_playing:
  "intervals (app_run True None
       [\<lparr>new_role = Some Host, new_hostIp = [], new_videoId = ''abc'', new_videoIdInput = ''abc'',
         new_isPlaying = True, now_connected = True,
         now_player = Some \<lparr>hasPlayer = True, isReady = True, isSyncing = False, currentTime = 42,
           playerState = 3, calls = [], player_console = [], syncing_timeouts = [],
           video_deps = None\<rparr>\<rparr>]) = [(1, 3000)] \<and>
   isPlaying (app_run True None
       [\<lparr>new_role = Some Host, new_hostIp = [], new_videoId = ''abc'', new_videoIdInput = ''abc'',
         new_isPlaying = True, now_connected = True,
         now_player = Some \<lparr>hasPlayer = True, isReady = True, isSyncing = False, currentTime = 42,
           playerState = 3, calls = [], player_console = [], syncing_timeouts = [],
           video_deps = None\<rparr>\<rparr>]) \<and>
   connectionStatus (ws_run (\<lambda>_ _. True) (Some Host) [] [(0, UserConnect), (10, SockOpen 0)]) =
     StatusConnected \<and>
   sent (fire_interval 1 3010
           (app_run True None
              [\<lparr>new_role = Some Host, new_hostIp = [], new_videoId = ''abc'', new_videoIdInput = ''abc'',
                new_isPlaying = True, now_connected = True,
                now_player = Some \<lparr>hasPlayer = True, isReady = True, isSyncing = False,
                  currentTime = 42, playerState = 3, calls = [], player_console = [],
                  syncing_timeouts = [], video_deps = None\<rparr>\<rparr>])
           (Some \<lparr>hasPlayer = True, isReady = True, isSyncing = False, currentTime = 42,
                  playerState = 3, calls = [], player_console = [], syncing_timeouts = [],
                  video_deps = None\<rparr>)
           (ws_run (\<lambda>_ _. True) (Some Host) [] [(0, UserConnect), (10, SockOpen 0)])) = []"
  by (simp add: app_run_def app_step_def app_render_def app_init_def periodic_effect_def
      periodic_clear_def handle_isReady_def fire_interval_def periodic_tick_def
      handle_getPlayerState_def ws_run_def ws_step_def ws_init_def ws_connect_def ws_onopen_def
      Let_def)

text \<open>
  Claim C6, amended. In every state the App reaches there is at most one interval timer.
  After a render the timer runs only if the role is host, the endpoint is connected, the
  playing flag is true and a video id is set; so while the playing flag is false there is no
  timer and no tick, whatever time passes. The effect starts the timer, with period 3000 ms,
  at the render at which those conditions come to hold with a ready player handle, and
  leaves it as it is at a render that changes none of them; unmounting stops it. A tick of
  the running timer sends one SEEK with the backend's current position when the player is
  ready, the backend reports the state PLAYING, the suppression flag is clear and the
  socket is open, and sends nothing otherwise.
\<close>

theorem C6_periodic_drift_correction:
  "length (intervals (app_run c0 p0 us)) \<le> 1 \<and>
   (intervals (app_step (app_run c0 p0 us) u) \<noteq> [] \<longrightarrow>
      new_role u = Some Host \<and> now_connected u \<and> new_isPlaying u \<and> new_videoId u \<noteq> []) \<and>
   (\<not> isPlaying (app_run c0 p0 us) \<longrightarrow>
      intervals (app_run c0 p0 us) = [] \<and>
      (\<forall>i. fire_interval i now (app_run c0 p0 us) p h = h)) \<and>
   (new_role u = Some Host \<and> now_connected u \<and> new_isPlaying u \<and> new_videoId u \<noteq> [] \<and>
    handle_isReady (now_player u) \<and>
    sync_deps (app_run c0 p0 us) \<noteq> Some (new_role u, now_connected u, new_isPlaying u, new_videoId u) \<longrightarrow>
      intervals (app_step (app_run c0 p0 us) u) = [(next_interval (app_run c0 p0 us), 3000)]) \<and>
   (sync_deps (app_run c0 p0 us) = Some (new_role u, now_connected u, new_isPlaying u, new_videoId u) \<longrightarrow>
      intervals (app_step (app_run c0 p0 us) u) = intervals (app_run c0 p0 us)) \<and>
   intervals (app_unmount (app_run c0 p0 us)) = [] \<and>
   (i \<in> fst ` set (intervals (app_run c0 p0 us)) \<longrightarrow>
      sent (fire_interval i now (app_run c0 p0 us) p h) =
        (case p of
           None \<Rightarrow> sent h
         | Some pl \<Rightarrow>
             if isReady pl \<and> handle_getPlayerState pl = 1 \<and> \<not> isApplyingRemoteChange h \<and>
                (\<exists>s. wsRef h = Some s \<and> sock_ready h s = OPEN)
             then sent h @ [(the (wsRef h), SyncEventMsg SEEK (handle_getCurrentTime pl) now)]
             else sent h))"
proof -
  let ?A = "app_run c0 p0 us"
  let ?B = "?A\<lparr>app_role := new_role u, hostIp := new_hostIp u, videoId := new_videoId u,
               videoIdInput := new_videoIdInput u, isPlaying := new_isPlaying u\<rparr>"
  have inv: "periodic_inv ?A" by (rule app_run_inv)
  have invB: "periodic_inv ?B" using inv by (rule set_state_inv)
  have step: "app_step ?A u = app_render (now_connected u) (now_player u) ?B"
    by (simp add: app_step_def)
  have one: "length (intervals ?A) \<le> 1" using inv by (rule inv_at_most_one)
  have only_if: "new_role u = Some Host \<and> now_connected u \<and> new_isPlaying u \<and> new_videoId u \<noteq> []"
    if ne: "intervals (app_step ?A u) \<noteq> []"
  proof (cases "sync_deps ?B = Some (app_role ?B, now_connected u, isPlaying ?B, videoId ?B)")
    case True
    then have "app_step ?A u = ?B" by (simp add: step app_render_unchanged)
    with ne have "intervals ?B \<noteq> []" by simp
    with invB True have "app_role ?B = Some Host \<and> now_connected u \<and> isPlaying ?B \<and> videoId ?B \<noteq> []"
      by (intro inv_running_conditions)
    then show ?thesis by simp
  next
    case False
    from app_render_changed [OF invB False, of "now_player u"] ne
    show ?thesis by (simp add: step split: if_splits)
  qed
  have paused: "intervals ?A = [] \<and> (\<forall>i. fire_interval i now ?A p h = h)" if np: "\<not> isPlaying ?A"
  proof -
    obtain c' where d: "sync_deps ?A = Some (app_role ?A, c', isPlaying ?A, videoId ?A)"
      using app_run_deps [of c0 p0 us] by blast
    have "intervals ?A = []"
    proof (rule ccontr)
      assume "intervals ?A \<noteq> []"
      with inv d have "isPlaying ?A" using inv_running_conditions [of ?A c'] by blast
      with np show False by simp
    qed
    then show ?thesis by (simp add: fire_interval_def)
  qed
  have start: "intervals (app_step ?A u) = [(next_interval ?A, 3000)]"
    if "new_role u = Some Host \<and> now_connected u \<and> new_isPlaying u \<and> new_videoId u \<noteq> [] \<and>
        handle_isReady (now_player u) \<and>
        sync_deps ?A \<noteq> Some (new_role u, now_connected u, new_isPlaying u, new_videoId u)"
  proof -
    from that have ch: "sync_deps ?B \<noteq> Some (app_role ?B, now_connected u, isPlaying ?B, videoId ?B)"
      by auto
    from app_render_changed [OF invB ch, of "now_player u"] that
    show ?thesis by (simp add: step)
  qed
  have keep: "intervals (app_step ?A u) = intervals ?A"
    if "sync_deps ?A = Some (new_role u, now_connected u, new_isPlaying u, new_videoId u)"
  proof -
    from that have "sync_deps ?B = Some (app_role ?B, now_connected u, isPlaying ?B, videoId ?B)"
      by simp
    then have "app_step ?A u = ?B" by (simp add: step app_render_unchanged)
    then show ?thesis by simp
  qed
  have unm: "intervals (app_unmount ?A) = []" using inv by (rule app_unmount_clears)
  have tick: "sent (fire_interval i now ?A p h) =
        (case p of
           None \<Rightarrow> sent h
         | Some pl \<Rightarrow>
             if isReady pl \<and> handle_getPlayerState pl = 1 \<and> \<not> isApplyingRemoteChange h \<and>
                (\<exists>s. wsRef h = Some s \<and> sock_ready h s = OPEN)
             then sent h @ [(the (wsRef h), SyncEventMsg SEEK (handle_getCurrentTime pl) now)]
             else sent h)"
    if "i \<in> fst ` set (intervals ?A)"
    using that by (simp only: fire_interval_def if_True periodic_tick_sends)
  from one only_if paused start keep unm tick show ?thesis by blast
qed

theorem C6_periodic_drift_correction_witness:
  "\<not> isPlaying (app_run True None []) \<and>
   intervals (app_run True None []) = [] \<and>
   fire_interval 1 3010 (app_run True None []) (Some \<lparr>hasPlayer = True, isReady = True, isSyncing = False, currentTime = 42,
      playerState = 1, calls = [], player_console = [], syncing_timeouts = [],
      video_deps = None\<rparr>) (ws_run (\<lambda>_ _. True) (Some Host) [] [(0, UserConnect), (10, SockOpen 0)]) = (ws_run (\<lambda>_ _. True) (Some Host) [] [(0, UserConnect), (10, SockOpen 0)]) \<and>
   intervals (app_step (app_run True None [])
     \<lparr>new_role = Some Host, new_hostIp = [], new_videoId = ''abc'',
     new_videoIdInput = ''abc'', new_isPlaying = True, now_connected = True,
     now_player = Some \<lparr>hasPlayer = True, isReady = True, isSyncing = False, currentTime = 42,
      playerState = 1, calls = [], player_console = [], syncing_timeouts = [],
      video_deps = None\<rparr>\<rparr>) = [(1, 3000)] \<and>
   intervals (app_step (app_run True None
    [\<lparr>new_role = Some Host, new_hostIp = [], new_videoId = ''abc'',
     new_videoIdInput = ''abc'', new_isPlaying = True, now_connected = True,
     now_player = Some \<lparr>hasPlayer = True, isReady = True, isSyncing = False, currentTime = 42,
      playerState = 1, calls = [], player_console = [], syncing_timeouts = [],
      video_deps = None\<rparr>\<rparr>])
     \<lparr>new_role = Some Host, new_hostIp = [], new_videoId = ''abc'',
     new_videoIdInput = ''abc'', new_isPlaying = True, now_connected = True,
     now_player = Some \<lparr>hasPlayer = True, isReady = True, isSyncing = False, currentTime = 42,
      playerState = 1, calls = [], player_console = [], syncing_timeouts = [],
      video_deps = None\<rparr>\<rparr>) = [(1, 3000)] \<and>
   intervals (app_step (app_run True None
    [\<lparr>new_role = Some Host, new_hostIp = [], new_videoId = ''abc'',
     new_videoIdInput = ''abc'', new_isPlaying = True, now_connected = True,
     now_player = Some \<lparr>hasPlayer = True, isReady = True, isSyncing = False, currentTime = 42,
      playerState = 1, calls = [], player_console = [], syncing_timeouts = [],
      video_deps = None\<rparr>\<rparr>])
     \<lparr>new_role = Some Host, new_hostIp = [], new_videoId = ''abc'',
     new_videoIdInput = ''abc'', new_isPlaying = False, now_connected = True,
     now_player = Some \<lparr>hasPlayer = True, isReady = True, isSyncing = False, currentTime = 42,
      playerState = 1, calls = [], player_console = [], syncing_timeouts = [],
      video_deps = None\<rparr>\<rparr>) = [] \<and>
   1 \<in> fst ` set (intervals (app_run True None
    [\<lparr>new_role = Some Host, new_hostIp = [], new_videoId = ''abc'',
     new_videoIdInput = ''abc'', new_isPlaying = True, now_connected = True,
     now_player = Some \<lparr>hasPlayer = True, isReady = True, isSyncing = False, currentTime = 42,
      playerState = 1, calls = [], player_console = [], syncing_timeouts = [],
      video_deps = None\<rparr>\<rparr>])) \<and>
   sent (fire_interval 1 3010 (app_run True None
    [\<lparr>new_role = Some Host, new_hostIp = [], new_videoId = ''abc'',
     new_videoIdInput = ''abc'', new_isPlaying = True, now_connected = True,
     now_player = Some \<lparr>hasPlayer = True, isReady = True, isSyncing = False, currentTime = 42,
      playerState = 1, calls = [], player_console = [], syncing_timeouts = [],
      video_deps = None\<rparr>\<rparr>])
     (Some \<lparr>hasPlayer = True, isReady = True, isSyncing = False, currentTime = 42,
      playerState = 1, calls = [], player_console = [], syncing_timeouts = [],
      video_deps = None\<rparr>) (ws_run (\<lambda>_ _. True) (Some Host) [] [(0, UserConnect), (10, SockOpen 0)])) =
     [(0, SyncEventMsg SEEK 42 3010)]"
  using
    C6_periodic_drift_correction
      [of True None "[]"
        "\<lparr>new_role = Some Host, new_hostIp = [], new_videoId = ''abc'',
     new_videoIdInput = ''abc'', new_isPlaying = True, now_connected = True,
     now_player = Some \<lparr>hasPlayer = True, isReady = True, isSyncing = False, currentTime = 42,
      playerState = 1, calls = [], player_console = [], syncing_timeouts = [],
      video_deps = None\<rparr>\<rparr>"
        3010 "Some \<lparr>hasPlayer = True, isReady = True, isSyncing = False, currentTime = 42,
      playerState = 1, calls = [], player_console = [], syncing_timeouts = [],
      video_deps = None\<rparr>"
        "ws_run (\<lambda>_ _. True) (Some Host) [] [(0, UserConnect), (10, SockOpen 0)]" 1]
    C6_periodic_drift_correction
      [of True None
        "[\<lparr>new_role = Some Host, new_hostIp = [], new_videoId = ''abc'',
     new_videoIdInput = ''abc'', new_isPlaying = True, now_connected = True,
     now_player = Some \<lparr>hasPlayer = True, isReady = True, isSyncing = False, currentTime = 42,
      playerState = 1, calls = [], player_console = [], syncing_timeouts = [],
      video_deps = None\<rparr>\<rparr>]"
        "\<lparr>new_role = Some Host, new_hostIp = [], new_videoId = ''abc'',
     new_videoIdInput = ''abc'', new_isPlaying = True, now_connected = True,
     now_player = Some \<lparr>hasPlayer = True, isReady = True, isSyncing = False, currentTime = 42,
      playerState = 1, calls = [], player_console = [], syncing_timeouts = [],
      video_deps = None\<rparr>\<rparr>"
        3010 "Some \<lparr>hasPlayer = True, isReady = True, isSyncing = False, currentTime = 42,
      playerState = 1, calls = [], player_console = [], syncing_timeouts = [],
      video_deps = None\<rparr>"
        "ws_run (\<lambda>_ _. True) (Some Host) [] [(0, UserConnect), (10, SockOpen 0)]" 1]
    C6_periodic_drift_correction
      [of True None
        "[\<lparr>new_role = Some Host, new_hostIp = [], new_videoId = ''abc'',
     new_videoIdInput = ''abc'', new_isPlaying = True, now_connected = True,
     now_player = Some \<lparr>hasPlayer = True, isReady = True, isSyncing = False, currentTime = 42,
      playerState = 1, calls = [], player_console = [], syncing_timeouts = [],
      video_deps = None\<rparr>\<rparr>]"
        "\<lparr>new_role = Some Host, new_hostIp = [], new_videoId = ''abc'',
     new_videoIdInput = ''abc'', new_isPlaying = False, now_connected = True,
     now_player = Some \<lparr>hasPlayer = True, isReady = True, isSyncing = False, currentTime = 42,
      playerState = 1, calls = [], player_console = [], syncing_timeouts = [],
      video_deps = None\<rparr>\<rparr>"
        3010 "Some \<lparr>hasPlayer = True, isReady = True, isSyncing = False, currentTime = 42,
      playerState = 1, calls = [], player_console = [], syncing_timeouts = [],
      video_deps = None\<rparr>"
        "ws_run (\<lambda>_ _. True) (Some Host) [] [(0, UserConnect), (10, SockOpen 0)]" 1]
  by (simp add: app_run_def app_step_def app_render_def app_init_def periodic_effect_def
      periodic_clear_def clear_interval_def handle_isReady_def fire_interval_def periodic_tick_def
      handle_getPlayerState_def handle_getCurrentTime_def sendSyncEvent_def
      ws_run_def ws_step_def ws_init_def ws_connect_def ws_onopen_def Let_def)

text \<open>
  Claim C7, as stated, fails in two places. \<^verbatim>\<open>handleVideoIdSync\<close> ignores an empty item
  id: the loaded id and the playing flag stay as they were. And an id equal to the one the
  player already shows changes no dependency of the player's load effect, so nothing is
  passed to the backend.
\<close>

theorem C7_empty_or_same_id:
  "videoId (handleVideoIdSync [] (app_init\<lparr>videoId := ''abc'', isPlaying := True\<rparr>)) = ''abc'' \<and>
   isPlaying (handleVideoIdSync [] (app_init\<lparr>videoId := ''abc'', isPlaying := True\<rparr>)) \<and>
   videoId (handleVideoIdSync ''abc'' (app_init\<lparr>videoId := ''abc'', isPlaying := True\<rparr>)) = ''abc'' \<and>
   calls (player_render
            (videoId (handleVideoIdSync ''abc'' (app_init\<lparr>videoId := ''abc'', isPlaying := True\<rparr>)))
            \<lparr>hasPlayer = True, isReady = True, isSyncing = False, currentTime = 42,
             playerState = 1, calls = [], player_console = [], syncing_timeouts = [],
             video_deps = Some (''abc'', True)\<rparr>) = []"
  by (simp add: handleVideoIdSync_def app_init_def player_render_def)

text \<open>
  Claim C7, amended. The hook hands every Session Load to \<^verbatim>\<open>handleVideoIdSync\<close> with
  the id received. For an id that is not empty the handler sets the loaded id (and the input
  field) to it and the playing flag to false, whatever the state was; an empty id changes
  neither. At its next render a player that is ready passes the new id to the backend's
  \<^verbatim>\<open>loadVideoById\<close>, provided the id differs from the one of its last load effect.
\<close>

theorem C7_session_load:
  "fst (ws_onmessage now (MsgLoadVideo v) h) = Some (OnVideoIdSync v) \<and>
   (v \<noteq> [] \<longrightarrow>
      videoId (handleVideoIdSync v a) = v \<and>
      videoIdInput (handleVideoIdSync v a) = v \<and>
      \<not> isPlaying (handleVideoIdSync v a)) \<and>
   videoId (handleVideoIdSync [] a) = videoId a \<and>
   isPlaying (handleVideoIdSync [] a) = isPlaying a \<and>
   (v \<noteq> [] \<and> isReady p \<and> hasPlayer p \<and> video_deps p \<noteq> Some (v, True) \<longrightarrow>
      calls (player_render (videoId (handleVideoIdSync v a)) p) = calls p @ [LoadVideoById v])"
  by (auto simp: ws_onmessage_def handleVideoIdSync_def player_render_def video_effect_def
      backend_def player_log_def Let_def)

theorem C7_session_load_witness:
  "''dQw4w9WgXcQ'' \<noteq> [] \<and>
   videoId (handleVideoIdSync ''dQw4w9WgXcQ'' (app_init\<lparr>videoId := ''abc'', isPlaying := True\<rparr>)) =
     ''dQw4w9WgXcQ'' \<and>
   \<not> isPlaying (handleVideoIdSync ''dQw4w9WgXcQ'' (app_init\<lparr>videoId := ''abc'', isPlaying := True\<rparr>)) \<and>
   calls (player_render
            (videoId (handleVideoIdSync ''dQw4w9WgXcQ'' (app_init\<lparr>videoId := ''abc'', isPlaying := True\<rparr>)))
            \<lparr>hasPlayer = True, isReady = True, isSyncing = False, currentTime = 42,
             playerState = 1, calls = [], player_console = [], syncing_timeouts = [],
             video_deps = Some (''abc'', True)\<rparr>) = [LoadVideoById ''dQw4w9WgXcQ'']"
  using C7_session_load
    [of 0 "''dQw4w9WgXcQ''" ws_init "app_init\<lparr>videoId := ''abc'', isPlaying := True\<rparr>"
        "\<lparr>hasPlayer = True, isReady = True, isSyncing = False, currentTime = 42,
          playerState = 1, calls = [], player_console = [], syncing_timeouts = [],
          video_deps = Some (''abc'', True)\<rparr>"]
  by (simp add: handleVideoIdSync_def app_init_def)

text \<open>
  Claim C9. A remote apply that finds the backend not initialized or not ready is a logged
  no-op: \<^verbatim>\<open>syncPlayer\<close> issues no command, leaves its syncing flag alone, schedules no
  timeout and writes its call line and one warning; with no player handle at all
  \<^verbatim>\<open>handleSyncEvent\<close> only writes that the event is ignored. Nothing is scheduled, so
  nothing is retried, and both return normally. (The flag and the reset of the transport
  hook belong to the receipt of the message, whatever the backend's state.) A drift tick
  without a ready backend would return at its guard and change nothing; but no such tick
  is attempted: the timer is started only with a ready handle, and over a life of the App
  in which a ready handle stays ready while a video id is set, the handle is ready, with
  its player, whenever the timer is running.
\<close>

theorem C9_backend_not_ready:
  "(\<not> hasPlayer p \<or> \<not> isReady p \<longrightarrow>
      syncPlayer act time ts now p =
        p\<lparr>player_console := player_console p @
            [LogSyncPlayerCalled act time (isReady p) (hasPlayer p) ts,
             if \<not> hasPlayer p then WarnPlayerNotInitialized else WarnPlayerNotReady]\<rparr>) \<and>
   handleSyncEvent act time ts now (a, None) =
     (a\<lparr>app_console := app_console a @ [LogHandleSyncEventCalled act time ts, LogSyncEventIgnored]\<rparr>,
      None) \<and>
   (\<not> handle_isReady popt \<or> \<not> handle_has_player popt \<longrightarrow> periodic_tick now popt h = h) \<and>
   (handle_lifecycle p0 [] us \<and> i \<in> fst ` set (intervals (app_run c0 p0 us)) \<longrightarrow>
      handle_isReady (last_handle p0 us) \<and> handle_has_player (last_handle p0 us))"
proof -
  have s: "\<not> hasPlayer p \<or> \<not> isReady p \<longrightarrow>
      syncPlayer act time ts now p =
        p\<lparr>player_console := player_console p @
            [LogSyncPlayerCalled act time (isReady p) (hasPlayer p) ts,
             if \<not> hasPlayer p then WarnPlayerNotInitialized else WarnPlayerNotReady]\<rparr>"
    by (simp add: syncPlayer_not_ready)
  have e: "handleSyncEvent act time ts now (a, None) =
     (a\<lparr>app_console := app_console a @ [LogHandleSyncEventCalled act time ts, LogSyncEventIgnored]\<rparr>,
      None)"
    by (simp add: handleSyncEvent_def)
  have t: "\<not> handle_isReady popt \<or> \<not> handle_has_player popt \<longrightarrow> periodic_tick now popt h = h"
    by (simp add: periodic_tick_no_backend)
  have r: "handle_isReady (last_handle p0 us) \<and> handle_has_player (last_handle p0 us)"
    if l: "handle_lifecycle p0 [] us" and m: "i \<in> fst ` set (intervals (app_run c0 p0 us))"
  proof -
    from m have ne: "intervals (app_run c0 p0 us) \<noteq> []" by auto
    then have "us \<noteq> []" using app_run_Nil_intervals [of c0 p0] by auto
    with l have hp: "handle_isReady (last_handle p0 us) \<longrightarrow> handle_has_player (last_handle p0 us)"
      by (rule handle_lifecycle_last)
    from app_run_running_ready [OF l, of c0] ne have "handle_isReady (last_handle p0 us)" by simp
    with hp show ?thesis by simp
  qed
  from s e t r show ?thesis by blast
qed

theorem C9_backend_not_ready_witness:
  "\<not> hasPlayer \<lparr>hasPlayer = False, isReady = False, isSyncing = False, currentTime = 0,
      playerState = - 1, calls = [], player_console = [], syncing_timeouts = [],
      video_deps = None\<rparr> \<and>
   syncPlayer PLAY 5 (Some 990) 1000
     \<lparr>hasPlayer = False, isReady = False, isSyncing = False, currentTime = 0,
      playerState = - 1, calls = [], player_console = [], syncing_timeouts = [],
      video_deps = None\<rparr> =
     \<lparr>hasPlayer = False, isReady = False, isSyncing = False, currentTime = 0,
      playerState = - 1, calls = [],
      player_console = [LogSyncPlayerCalled PLAY 5 False False (Some 990), WarnPlayerNotInitialized],
      syncing_timeouts = [], video_deps = None\<rparr> \<and>
   \<not> handle_isReady (Some \<lparr>hasPlayer = False, isReady = False, isSyncing = False, currentTime = 0,
      playerState = - 1, calls = [], player_console = [], syncing_timeouts = [],
      video_deps = None\<rparr>) \<and>
   periodic_tick 1000
     (Some \<lparr>hasPlayer = False, isReady = False, isSyncing = False, currentTime = 0,
      playerState = - 1, calls = [], player_console = [], syncing_timeouts = [],
      video_deps = None\<rparr>) ws_init = ws_init \<and>
   handle_lifecycle None []
     [\<lparr>new_role = Some Host, new_hostIp = [], new_videoId = ''abc'',
     new_videoIdInput = ''abc'', new_isPlaying = True, now_connected = True,
     now_player = Some \<lparr>hasPlayer = True, isReady = True, isSyncing = False, currentTime = 42,
      playerState = 1, calls = [], player_console = [], syncing_timeouts = [],
      video_deps = None\<rparr>\<rparr>] \<and>
   1 \<in> fst ` set (intervals (app_run True None
     [\<lparr>new_role = Some Host, new_hostIp = [], new_videoId = ''abc'',
     new_videoIdInput = ''abc'', new_isPlaying = True, now_connected = True,
     now_player = Some \<lparr>hasPlayer = True, isReady = True, isSyncing = False, currentTime = 42,
      playerState = 1, calls = [], player_console = [], syncing_timeouts = [],
      video_deps = None\<rparr>\<rparr>])) \<and>
   handle_isReady (last_handle None
     [\<lparr>new_role = Some Host, new_hostIp = [], new_videoId = ''abc'',
     new_videoIdInput = ''abc'', new_isPlaying = True, now_connected = True,
     now_player = Some \<lparr>hasPlayer = True, isReady = True, isSyncing = False, currentTime = 42,
      playerState = 1, calls = [], player_console = [], syncing_timeouts = [],
      video_deps = None\<rparr>\<rparr>])"
  using C9_backend_not_ready
    [of "\<lparr>hasPlayer = False, isReady = False, isSyncing = False, currentTime = 0,
      playerState = - 1, calls = [], player_console = [], syncing_timeouts = [],
      video_deps = None\<rparr>" PLAY 5 "Some 990" 1000 app_init
        "Some \<lparr>hasPlayer = False, isReady = False, isSyncing = False, currentTime = 0,
      playerState = - 1, calls = [], player_console = [], syncing_timeouts = [],
      video_deps = None\<rparr>" ws_init None
        "[\<lparr>new_role = Some Host, new_hostIp = [], new_videoId = ''abc'',
     new_videoIdInput = ''abc'', new_isPlaying = True, now_connected = True,
     now_player = Some \<lparr>hasPlayer = True, isReady = True, isSyncing = False, currentTime = 42,
      playerState = 1, calls = [], player_console = [], syncing_timeouts = [],
      video_deps = None\<rparr>\<rparr>]" 1 True]
  by (simp add: handle_isReady_def handle_has_player_def last_handle_def app_run_def app_step_def
      app_render_def app_init_def periodic_effect_def periodic_clear_def)


end
